theory Spec2Isabelle
  imports
    Main
    "HOL-Library.Char_ord"
    "HOL-Library.List_Lexorder"
    "HOL-Library.Multiset"
begin

section \<open>Go values shared by both packages\<close>

text \<open>
  A Go \<^verbatim>\<open>string\<close> and a \<^verbatim>\<open>[]byte\<close> are byte sequences: both are \<^typ>\<open>string\<close>
  here (a list of 8-bit characters). A Go \<^verbatim>\<open>*bool\<close> is a \<^typ>\<open>bool option\<close>, with
  \<^term>\<open>None\<close> for \<^verbatim>\<open>nil\<close>.

  A Go \<^verbatim>\<open>error\<close> is kept as the expression that built it. \<open>Errorf f args\<close> is the value
  of \<^verbatim>\<open>fmt.Errorf(f, args...)\<close>: the format string and its operands, not yet rendered.
  \<open>ExitError\<close> is \<^verbatim>\<open>*exec.ExitError\<close> (the command ran and exited unsuccessfully),
  \<open>ExecFailure\<close> is every other error of \<^verbatim>\<open>Cmd.Run\<close> (for instance the executable could not
  be started), \<open>EOF\<close> is \<^verbatim>\<open>io.EOF\<close>, \<open>NumError\<close> is \<^verbatim>\<open>*strconv.NumError\<close> (the text that
  did not parse and why) and \<open>ErrTooLong\<close> is \<^verbatim>\<open>bufio.ErrTooLong\<close>.
  \<open>Panic\<close> is not an error value: it marks a run that a runtime panic aborts.
\<close>

datatype num_err = ErrSyntax | ErrRange

datatype error =
    EOF
  | ExitError int
  | ExecFailure string
  | NumError string num_err
  | ErrTooLong
  | Errorf string "fmt_arg list"
  | Panic string
and fmt_arg = ArgInt int | ArgStr string | ArgErr error

abbreviation nl :: char where
  "nl \<equiv> CHR 0x0A"

abbreviation quote :: char where
  "quote \<equiv> CHR 0x22"

section \<open>Package repository\<close>

subsection \<open>Running git\<close>

text \<open>
  \<^verbatim>\<open>exec.Command("git", args...)\<close> run in a directory with a standard input is the
  environment of the program. It is a parameter \<open>git\<close> of every function that runs a command:
  from the directory, the arguments and the bytes on standard input to the error of
  \<^verbatim>\<open>Cmd.Run\<close> and the bytes written to standard output and standard error. A command
  run with \<^verbatim>\<open>nil\<close> for its standard input reads the empty input.
  \<^verbatim>\<open>strings.TrimSpace\<close> (white space as Unicode defines it) is a parameter too.
\<close>

record cmd_result =
  run_err :: "error option"
  run_stdout :: string
  run_stderr :: string

type_synonym exec = "string \<Rightarrow> string list \<Rightarrow> string \<Rightarrow> cmd_result"

record GitRepo =
  Path :: string

definition runGitCommandWithIO :: "exec \<Rightarrow> GitRepo \<Rightarrow> string \<Rightarrow> string list \<Rightarrow> cmd_result" where
  "runGitCommandWithIO git repo stdin args = git (Path repo) args stdin"

definition runGitCommandRaw ::
  "exec \<Rightarrow> (string \<Rightarrow> string) \<Rightarrow> GitRepo \<Rightarrow> string list \<Rightarrow> string \<times> string \<times> error option" where
  "runGitCommandRaw git TrimSpace repo args =
     (let r = runGitCommandWithIO git repo [] args
      in (TrimSpace (run_stdout r), TrimSpace (run_stderr r), run_err r))"

fun Join :: "string list \<Rightarrow> string \<Rightarrow> string" where
  "Join [] sep = []"
| "Join [a] sep = a"
| "Join (a # b # rest) sep = a @ sep @ Join (b # rest) sep"

definition runGitCommand ::
  "exec \<Rightarrow> (string \<Rightarrow> string) \<Rightarrow> GitRepo \<Rightarrow> string list \<Rightarrow> string \<times> error option" where
  "runGitCommand git TrimSpace repo args =
     (case runGitCommandRaw git TrimSpace repo args of
        (stdout, stderr, None) \<Rightarrow> (stdout, None)
      | (stdout, stderr, Some e) \<Rightarrow>
          (let stderr' = (if stderr = [] then ''Error running git command: '' @ Join args '' '' else stderr)
           in (stdout, Some (Errorf stderr' []))))"

subsection \<open>IsAncestor\<close>

definition IsAncestor ::
  "exec \<Rightarrow> (string \<Rightarrow> string) \<Rightarrow> GitRepo \<Rightarrow> string \<Rightarrow> string \<Rightarrow> bool \<times> error option" where
  "IsAncestor git TrimSpace repo ancestor descendant =
     (case runGitCommandRaw git TrimSpace repo [''merge-base'', ''--is-ancestor'', ancestor, descendant] of
        (_, _, None) \<Rightarrow> (True, None)
      | (_, _, Some (ExitError c)) \<Rightarrow> (False, None)
      | (_, _, Some e) \<Rightarrow>
          (False, Some (Errorf ''Error while trying to determine commit ancestry: %v'' [ArgErr e])))"

subsection \<open>strconv\<close>

text \<open>
  \<^verbatim>\<open>strconv.ParseInt(s, 10, bitSize)\<close> and \<^verbatim>\<open>strconv.Atoi\<close>, for base 10 only. An
  unsigned 64-bit value is a natural number with the overflow checks of the library written
  out. \<open>ParseUint_digits\<close> is the loop over the bytes of the text: it stops at the first
  byte that is not a digit (a syntax error) or at the first digit with which the value no
  longer fits (a range error). \<^verbatim>\<open>int\<close> has \<open>intSize\<close> bits, 64 as on the platforms the
  tool is built for.
\<close>

definition intSize :: nat where
  "intSize = 64"

definition digitValue :: "char \<Rightarrow> nat" where
  "digitValue c = of_char c - of_char (CHR ''0'')"

fun ParseUint_digits :: "nat \<Rightarrow> string \<Rightarrow> nat \<Rightarrow> num_err + nat" where
  "ParseUint_digits bitSize [] n = Inr n"
| "ParseUint_digits bitSize (c # cs) n =
     (if \<not> (CHR ''0'' \<le> c \<and> c \<le> CHR ''9'') then Inl ErrSyntax
      else if n \<ge> (2 ^ 64 - 1) div 10 + 1 then Inl ErrRange
      else let n1 = n * 10 + digitValue c
           in if n1 \<ge> 2 ^ 64 \<or> n1 > 2 ^ bitSize - 1 then Inl ErrRange
              else ParseUint_digits bitSize cs n1)"

definition ParseUint :: "string \<Rightarrow> nat \<Rightarrow> num_err + nat" where
  "ParseUint s bitSize =
     (if s = [] then Inl ErrSyntax
      else ParseUint_digits (if bitSize = 0 then intSize else bitSize) s 0)"

definition ParseInt :: "string \<Rightarrow> nat \<Rightarrow> error + int" where
  "ParseInt s bitSize =
     (case s of
        [] \<Rightarrow> Inl (NumError s ErrSyntax)
      | c # cs \<Rightarrow>
          (let neg = (c = CHR ''-'');
               digits = (if c = CHR ''+'' \<or> c = CHR ''-'' then cs else s);
               bits = (if bitSize = 0 then intSize else bitSize);
               cutoff = 2 ^ (bits - 1)
           in case ParseUint digits bitSize of
                Inl ErrSyntax \<Rightarrow> Inl (NumError s ErrSyntax)
              | Inl ErrRange \<Rightarrow> Inl (NumError s ErrRange)
              | Inr un \<Rightarrow>
                  if \<not> neg \<and> un \<ge> cutoff then Inl (NumError s ErrRange)
                  else if neg \<and> un > cutoff then Inl (NumError s ErrRange)
                  else Inr (if neg then - int un else int un)))"

definition Atoi :: "string \<Rightarrow> error + int" where
  "Atoi s = ParseInt s 0"

text \<open>
  What it is for a text to be a base-10 integer of 64 bits, stated without the parser: an
  optional sign, then one or more decimal digits, whose value lies between \<open>-2^63\<close> and
  \<open>2^63 - 1\<close>.
\<close>

definition isDigit :: "char \<Rightarrow> bool" where
  "isDigit c = (CHR ''0'' \<le> c \<and> c \<le> CHR ''9'')"

fun decimal :: "string \<Rightarrow> nat" where
  "decimal [] = 0"
| "decimal (c # cs) = digitValue c * 10 ^ length cs + decimal cs"

definition base10_int64 :: "string \<Rightarrow> int \<Rightarrow> bool" where
  "base10_int64 s n =
     (case s of
        [] \<Rightarrow> False
      | c # cs \<Rightarrow>
          (let digits = (if c = CHR ''+'' \<or> c = CHR ''-'' then cs else s)
           in digits \<noteq> [] \<and> list_all isDigit digits
              \<and> n = (if c = CHR ''-'' then - int (decimal digits) else int (decimal digits))
              \<and> - (2 ^ 63) \<le> n \<and> n < 2 ^ 63))"

subsection \<open>strings and bufio\<close>

definition HasSuffix :: "string \<Rightarrow> string \<Rightarrow> bool" where
  "HasSuffix s suffix = (length suffix \<le> length s \<and> drop (length s - length suffix) s = suffix)"

definition TrimSuffix :: "string \<Rightarrow> string \<Rightarrow> string" where
  "TrimSuffix s suffix = (if HasSuffix s suffix then take (length s - length suffix) s else s)"

fun Split :: "string \<Rightarrow> char \<Rightarrow> string list" where
  "Split [] sep = [[]]"
| "Split (c # cs) sep =
     (if c = sep then [] # Split cs sep
      else (case Split cs sep of [] \<Rightarrow> [[c]] | part # parts \<Rightarrow> (c # part) # parts))"

fun SplitN :: "string \<Rightarrow> char \<Rightarrow> nat \<Rightarrow> string list" where
  "SplitN s sep 0 = []"
| "SplitN s sep (Suc 0) = [s]"
| "SplitN s sep (Suc (Suc n)) =
     (if sep \<in> set s
      then takeWhile (\<lambda>c. c \<noteq> sep) s # SplitN (tl (dropWhile (\<lambda>c. c \<noteq> sep) s)) sep (Suc n)
      else [s])"

text \<open>
  A \<^verbatim>\<open>bufio.Reader\<close> over a \<^verbatim>\<open>bytes.Buffer\<close> is the list of the bytes not yet read. Each
  read returns what it read, the reader after it and the error. \<open>ReadString\<close> reads up to
  and including the first delimiter, or all that is left together with \<^verbatim>\<open>io.EOF\<close> when
  there is no delimiter. \<open>Read n\<close> is \<^verbatim>\<open>Read(p)\<close> with \<^verbatim>\<open>len(p) = n > 0\<close>: no bytes and
  \<^verbatim>\<open>io.EOF\<close> when nothing is left, otherwise at least one byte and no error. (The real
  reader may return fewer bytes than are left; the loop around the call asks again.)
\<close>

definition ReadString :: "string \<Rightarrow> char \<Rightarrow> string \<times> string \<times> error option" where
  "ReadString reader delim =
     (if delim \<in> set reader
      then (takeWhile (\<lambda>c. c \<noteq> delim) reader @ [delim],
            tl (dropWhile (\<lambda>c. c \<noteq> delim) reader), None)
      else (reader, [], Some EOF))"

definition Read :: "string \<Rightarrow> nat \<Rightarrow> string \<times> string \<times> error option" where
  "Read reader n =
     (if reader = [] then ([], [], Some EOF) else (take n reader, drop n reader, None))"

subsection \<open>splitBatchCatFileOutput\<close>

text \<open>
  \<open>readContents\<close> is the loop that fills \<^verbatim>\<open>contentBytes\<close>, a slice of \<open>sz\<close> zero bytes
  (\<open>sz\<close> is \<^verbatim>\<open>size\<close>); \<open>filled\<close> are the bytes read so far (\<^verbatim>\<open>len\<close> is their number).
  It returns the slice, the reader and the error the loop ends with.
\<close>

function readContents :: "string \<Rightarrow> nat \<Rightarrow> string \<Rightarrow> string \<times> string \<times> error option" where
  "readContents reader sz filled =
     (if length filled < sz
      then (case Read reader (sz - length filled) of
              (bytes, reader', None) \<Rightarrow> readContents reader' sz (filled @ bytes)
            | (bytes, reader', Some err) \<Rightarrow>
                 (filled @ bytes @ replicate (sz - length filled - length bytes) (CHR 0x00),
                  reader', Some err))
      else (filled, reader, None))"
  by pat_completeness auto
termination
  by (relation "measure (\<lambda>(reader, sz, filled). sz - length filled)")
     (auto simp: Read_def min_def neq_Nil_conv split: if_splits)

declare readContents.simps [simp del]

text \<open>
  One round of the parser's loop: \<open>Inl\<close> is the result the function returns in this round,
  \<open>Inr\<close> the map and the reader with which the next round starts.

  \<^verbatim>\<open>make([]byte, size, size)\<close> returns a slice for the sizes from 0 to \<open>maxAlloc\<close> and
  aborts the run for every other size: a negative size and a size above the allocation
  limit of the runtime panic with \<^verbatim>\<open>makeslice: len out of range\<close>. \<open>maxAlloc\<close> is a
  parameter: the limit of the runtime (\<open>2^48\<close> bytes on linux/amd64), or less where the
  machine cannot provide the memory.
\<close>

definition splitBatchCatFileOutput_round ::
  "nat \<Rightarrow> (string \<rightharpoonup> string) \<Rightarrow> string \<Rightarrow>
     (error + (string \<rightharpoonup> string)) + (string \<rightharpoonup> string) \<times> string" where
  "splitBatchCatFileOutput_round maxAlloc contentsMap reader =
     (let (nameLine0, reader1, err1) = ReadString reader nl;
          nameLine = TrimSuffix nameLine0 [nl]
      in if err1 = Some EOF then Inl (Inr contentsMap)
         else if err1 \<noteq> None
         then Inl (Inl (Errorf ''Failure while reading the next object name: %v'' [ArgErr (the err1)]))
         else
           let (sizeLine0, reader2, err2) = ReadString reader1 nl;
               sizeLine = TrimSuffix sizeLine0 [nl]
           in if err2 \<noteq> None
              then Inl (Inl (Errorf ''Failure while reading the next object size: %q - %v''
                               [ArgStr nameLine, ArgErr (the err2)]))
              else
                case Atoi sizeLine of
                  Inl err \<Rightarrow>
                    Inl (Inl (Errorf ''Failure while parsing the next object size: %q - %v''
                                [ArgStr nameLine, ArgErr err]))
                | Inr sz \<Rightarrow>
                    if sz < 0 \<or> int maxAlloc < sz
                    then Inl (Inl (Panic ''makeslice: len out of range''))
                    else
                      let (contentBytes, reader3, err3) = readContents reader2 (nat sz) [];
                          contentsMap' = contentsMap(nameLine \<mapsto> contentBytes)
                      in if err3 = Some EOF then Inl (Inr contentsMap')
                         else if err3 \<noteq> None then Inl (Inl (the err3))
                         else Inr (contentsMap', dropWhile (\<lambda>c. c = nl) reader3))"

lemma takeWhile_upto:
  "delim \<notin> set ys \<Longrightarrow> takeWhile (\<lambda>c. c \<noteq> delim) (ys @ delim # zs) = ys"
  by (induction ys) auto

lemma dropWhile_upto:
  "delim \<notin> set ys \<Longrightarrow> dropWhile (\<lambda>c. c \<noteq> delim) (ys @ delim # zs) = delim # zs"
  by (induction ys) auto

lemma ReadString_found:
  "delim \<notin> set ys \<Longrightarrow> ReadString (ys @ delim # zs) delim = (ys @ [delim], zs, None)"
  by (simp add: ReadString_def takeWhile_upto dropWhile_upto)

lemma ReadString_shorter:
  assumes "ReadString reader delim = (line, reader', None)"
  shows "length reader' < length reader"
proof -
  from assms have "delim \<in> set reader"
    by (auto simp: ReadString_def split: if_splits)
  then obtain ys zs where "reader = ys @ delim # zs" "delim \<notin> set ys"
    by (auto dest: split_list_first)
  with assms show ?thesis
    by (simp add: ReadString_found)
qed

lemma ReadString_le:
  assumes "ReadString reader delim = (line, reader', err)"
  shows "length reader' \<le> length reader"
proof (cases "delim \<in> set reader")
  case True
  then obtain ys zs where "reader = ys @ delim # zs" "delim \<notin> set ys"
    by (auto dest: split_list_first)
  with assms show ?thesis
    by (simp add: ReadString_found)
next
  case False
  with assms show ?thesis
    by (simp add: ReadString_def)
qed

lemma readContents_done:
  "\<not> length filled < sz \<Longrightarrow> readContents reader sz filled = (filled, reader, None)"
  by (subst readContents.simps) simp

lemma readContents_eof:
  "length filled < sz \<Longrightarrow>
   readContents [] sz filled = (filled @ replicate (sz - length filled) (CHR 0x00), [], Some EOF)"
  by (subst readContents.simps) (simp add: Read_def)

lemma readContents_read:
  "length filled < sz \<Longrightarrow> reader \<noteq> [] \<Longrightarrow>
   readContents reader sz filled =
     readContents (drop (sz - length filled) reader) sz (filled @ take (sz - length filled) reader)"
  by (subst readContents.simps) (simp add: Read_def)

lemma readContents_enough:
  assumes "sz \<le> length reader"
  shows "readContents reader sz [] = (take sz reader, drop sz reader, None)"
proof (cases "sz = 0")
  case True
  then show ?thesis by (simp add: readContents_done)
next
  case False
  with assms have "reader \<noteq> []" by auto
  with False have "readContents reader sz [] = readContents (drop sz reader) sz (take sz reader)"
    by (simp add: readContents_read)
  also have "\<dots> = (take sz reader, drop sz reader, None)"
    using assms by (simp add: readContents_done)
  finally show ?thesis .
qed

lemma readContents_short:
  assumes "length reader < sz"
  shows "readContents reader sz [] =
           (reader @ replicate (sz - length reader) (CHR 0x00), [], Some EOF)"
proof (cases "reader = []")
  case True
  with assms show ?thesis by (simp add: readContents_eof)
next
  case False
  with assms have "readContents reader sz [] = readContents [] sz reader"
    by (simp add: readContents_read)
  also have "\<dots> = (reader @ replicate (sz - length reader) (CHR 0x00), [], Some EOF)"
    using assms by (simp add: readContents_eof)
  finally show ?thesis .
qed

lemma readContents_le:
  assumes "readContents reader sz [] = (contentBytes, reader', err)"
  shows "length reader' \<le> length reader"
proof (cases "sz \<le> length reader")
  case True
  with assms show ?thesis by (auto simp: readContents_enough)
next
  case False
  with assms show ?thesis by (auto simp: readContents_short)
qed

lemma splitBatchCatFileOutput_round_shorter:
  assumes "splitBatchCatFileOutput_round maxAlloc contentsMap reader = Inr (contentsMap', reader')"
  shows "length reader' < length reader"
proof -
  obtain n0 r1 e1 where 1: "ReadString reader nl = (n0, r1, e1)"
    by (cases "ReadString reader nl")
  obtain s0 r2 e2 where 2: "ReadString r1 nl = (s0, r2, e2)"
    by (cases "ReadString r1 nl")
  from assms 1 have e1: "e1 = None"
    by (simp add: splitBatchCatFileOutput_round_def Let_def split: if_splits)
  from assms 1 2 e1 have e2: "e2 = None"
    by (simp add: splitBatchCatFileOutput_round_def Let_def split: if_splits)
  from assms 1 2 e1 e2 obtain sz where sz: "Atoi (TrimSuffix s0 [nl]) = Inr sz"
      "\<not> (sz < 0 \<or> int maxAlloc < sz)"
    by (simp add: splitBatchCatFileOutput_round_def Let_def split: sum.splits if_splits)
  obtain cb r3 e3 where 3: "readContents r2 (nat sz) [] = (cb, r3, e3)"
    by (cases "readContents r2 (nat sz) []")
  from assms 1 2 e1 e2 sz 3 have r': "reader' = dropWhile (\<lambda>c. c = nl) r3"
    by (simp add: splitBatchCatFileOutput_round_def Let_def split: if_splits)
  have "length reader' \<le> length r3"
    using r' by (simp add: length_dropWhile_le)
  also have "\<dots> \<le> length r2" using readContents_le [OF 3] .
  also have "\<dots> \<le> length r1" using ReadString_le [OF 2] .
  also have "\<dots> < length reader" using ReadString_shorter [OF 1 [unfolded e1]] .
  finally show ?thesis .
qed

function splitBatchCatFileOutput_loop ::
  "nat \<Rightarrow> (string \<rightharpoonup> string) \<Rightarrow> string \<Rightarrow> error + (string \<rightharpoonup> string)" where
  "splitBatchCatFileOutput_loop maxAlloc contentsMap reader =
     (case splitBatchCatFileOutput_round maxAlloc contentsMap reader of
        Inl result \<Rightarrow> result
      | Inr (contentsMap', reader') \<Rightarrow> splitBatchCatFileOutput_loop maxAlloc contentsMap' reader')"
  by pat_completeness auto
termination
proof (relation "measure (\<lambda>(maxAlloc, contentsMap, reader). length reader)")
  show "wf (measure (\<lambda>(maxAlloc :: nat, contentsMap :: string \<rightharpoonup> string, reader :: string).
              length reader))"
    by (rule wf_measure)
next
  fix maxAlloc contentsMap reader b contentsMap' reader'
  assume "splitBatchCatFileOutput_round maxAlloc contentsMap reader = Inr b"
    and "(contentsMap', reader') = b"
  then have "length reader' < length reader"
    using splitBatchCatFileOutput_round_shorter [of maxAlloc contentsMap reader contentsMap' reader']
    by simp
  then show "((maxAlloc, contentsMap', reader'), maxAlloc, contentsMap, reader)
               \<in> measure (\<lambda>(maxAlloc, contentsMap, reader). length reader)"
    by simp
qed

declare splitBatchCatFileOutput_loop.simps [simp del]

definition splitBatchCatFileOutput :: "nat \<Rightarrow> string \<Rightarrow> error + (string \<rightharpoonup> string)" where
  "splitBatchCatFileOutput maxAlloc out = splitBatchCatFileOutput_loop maxAlloc Map.empty out"

subsection \<open>splitBatchCheckOutput\<close>

text \<open>
  A Go \<^verbatim>\<open>map[string]bool\<close> is a partial function; reading a key that is absent gives
  \<^verbatim>\<open>false\<close>, so \<^verbatim>\<open>isCommit[k]\<close> is \<open>isCommit k = Some True\<close>.
\<close>

definition splitBatchCheckOutput_round ::
  "(string \<rightharpoonup> bool) \<Rightarrow> string \<Rightarrow> (error + (string \<rightharpoonup> bool)) + (string \<rightharpoonup> bool) \<times> string" where
  "splitBatchCheckOutput_round isCommit reader =
     (let (nameLine0, reader1, err1) = ReadString reader (CHR '' '')
      in if err1 = Some EOF then Inl (Inr isCommit)
         else if err1 \<noteq> None
         then Inl (Inl (Errorf ''Failure while reading the next object name: %v'' [ArgErr (the err1)]))
         else
           let nameLine = TrimSuffix nameLine0 '' '';
               (typeLine0, reader2, err2) = ReadString reader1 nl
           in if err2 \<noteq> None \<and> err2 \<noteq> Some EOF
              then Inl (Inl (Errorf ''Failure while reading the next object type: %q - %v''
                               [ArgStr nameLine, ArgErr (the err2)]))
              else
                let typeLine = TrimSuffix typeLine0 [nl]
                in Inr (if typeLine = ''commit'' then isCommit(nameLine \<mapsto> True) else isCommit,
                        reader2))"

lemma splitBatchCheckOutput_round_shorter:
  assumes "splitBatchCheckOutput_round isCommit reader = Inr (isCommit', reader')"
  shows "length reader' < length reader"
proof -
  obtain n0 r1 e1 where 1: "ReadString reader (CHR '' '') = (n0, r1, e1)"
    by (cases "ReadString reader (CHR '' '')")
  obtain t0 r2 e2 where 2: "ReadString r1 nl = (t0, r2, e2)"
    by (cases "ReadString r1 nl")
  from assms 1 have e1: "e1 = None"
    by (simp add: splitBatchCheckOutput_round_def Let_def split: if_splits)
  from assms 1 2 e1 have "reader' = r2"
    by (simp add: splitBatchCheckOutput_round_def Let_def split: if_splits)
  then have "length reader' \<le> length r1"
    using ReadString_le [OF 2] by simp
  also have "\<dots> < length reader"
    using ReadString_shorter [OF 1 [unfolded e1]] .
  finally show ?thesis .
qed

function splitBatchCheckOutput_loop :: "(string \<rightharpoonup> bool) \<Rightarrow> string \<Rightarrow> error + (string \<rightharpoonup> bool)" where
  "splitBatchCheckOutput_loop isCommit reader =
     (case splitBatchCheckOutput_round isCommit reader of
        Inl result \<Rightarrow> result
      | Inr (isCommit', reader') \<Rightarrow> splitBatchCheckOutput_loop isCommit' reader')"
  by pat_completeness auto
termination
proof (relation "measure (\<lambda>(isCommit, reader). length reader)")
  show "wf (measure (\<lambda>(isCommit :: string \<rightharpoonup> bool, reader :: string). length reader))"
    by (rule wf_measure)
next
  fix isCommit reader b isCommit' reader'
  assume "splitBatchCheckOutput_round isCommit reader = Inr b" and "(isCommit', reader') = b"
  then have "length reader' < length reader"
    using splitBatchCheckOutput_round_shorter [of isCommit reader isCommit' reader'] by simp
  then show "((isCommit', reader'), isCommit, reader) \<in> measure (\<lambda>(isCommit, reader). length reader)"
    by simp
qed

declare splitBatchCheckOutput_loop.simps [simp del]

definition splitBatchCheckOutput :: "string \<Rightarrow> error + (string \<rightharpoonup> bool)" where
  "splitBatchCheckOutput out = splitBatchCheckOutput_loop Map.empty out"

subsection \<open>GetNotes, ListNotedRevisions and GetAllNotes\<close>

text \<open>
  A \<^verbatim>\<open>Note\<close> is a \<^verbatim>\<open>[]byte\<close>. A function whose Go result type has no error returns none.

  The commands that a read operation runs are part of what it does. Each of the three
  operations returns, next to its Go result, the log of its commands in the order in which it
  ran them: a \<open>call\<close> is the arguments and the standard input of one command. The logged
  variants of \<open>runGitCommand\<close> and \<open>runGitCommandWithIO\<close> run the command and add it to
  the log.
\<close>

type_synonym call = "string list \<times> string"

definition runGitCommand_logged ::
  "exec \<Rightarrow> (string \<Rightarrow> string) \<Rightarrow> GitRepo \<Rightarrow> string list \<Rightarrow> call list \<Rightarrow>
     (string \<times> error option) \<times> call list" where
  "runGitCommand_logged git TrimSpace repo args log =
     (runGitCommand git TrimSpace repo args, log @ [(args, [])])"

definition runGitCommandWithIO_logged ::
  "exec \<Rightarrow> GitRepo \<Rightarrow> string \<Rightarrow> string list \<Rightarrow> call list \<Rightarrow> cmd_result \<times> call list" where
  "runGitCommandWithIO_logged git repo stdin args log =
     (runGitCommandWithIO git repo stdin args, log @ [(args, stdin)])"

definition GetNotes ::
  "exec \<Rightarrow> (string \<Rightarrow> string) \<Rightarrow> GitRepo \<Rightarrow> string \<Rightarrow> string \<Rightarrow> string list \<times> call list" where
  "GetNotes git TrimSpace repo notesRef revision =
     (case runGitCommand_logged git TrimSpace repo
             [''notes'', ''--ref'', notesRef, ''show'', revision] [] of
        ((rawNotes, Some err), log) \<Rightarrow> ([], log)
      | ((rawNotes, None), log) \<Rightarrow> (Split rawNotes nl, log))"

text \<open>
  \<open>ListNotedRevisions_pair\<close> is the body of the loop over the lines of
  \<^verbatim>\<open>git notes list\<close>; its state is \<^verbatim>\<open>revisions\<close> and the log.
\<close>

definition ListNotedRevisions_pair ::
  "exec \<Rightarrow> (string \<Rightarrow> string) \<Rightarrow> GitRepo \<Rightarrow> string \<Rightarrow> string list \<times> call list \<Rightarrow>
     string list \<times> call list" where
  "ListNotedRevisions_pair git TrimSpace repo notePair state =
     (case state of (revisions, log) \<Rightarrow>
        let noteParts = SplitN notePair (CHR '' '') 2
        in if length noteParts = 2
           then (let objHash = noteParts ! 1
                 in case runGitCommand_logged git TrimSpace repo [''cat-file'', ''-t'', objHash] log of
                      ((objType, None), log') \<Rightarrow>
                        if objType = ''commit'' then (revisions @ [objHash], log')
                        else (revisions, log')
                    | ((objType, Some err), log') \<Rightarrow> (revisions, log'))
           else (revisions, log))"

definition ListNotedRevisions ::
  "exec \<Rightarrow> (string \<Rightarrow> string) \<Rightarrow> GitRepo \<Rightarrow> string \<Rightarrow> string list \<times> call list" where
  "ListNotedRevisions git TrimSpace repo notesRef =
     (case runGitCommand_logged git TrimSpace repo [''notes'', ''--ref'', notesRef, ''list''] [] of
        ((notesListOut, Some err), log) \<Rightarrow> ([], log)
      | ((notesListOut, None), log) \<Rightarrow>
          fold (ListNotedRevisions_pair git TrimSpace repo) (Split notesListOut nl) ([], log))"

text \<open>
  For stating what \<open>ListNotedRevisions\<close> returns: the objects that a listing names (the
  second part of every line that has two parts), and whether the type query of an object
  succeeds and answers \<^verbatim>\<open>commit\<close>.
\<close>

definition listedObjects :: "string \<Rightarrow> string list" where
  "listedObjects notesListOut =
     map (\<lambda>noteParts. noteParts ! 1)
       (filter (\<lambda>noteParts. length noteParts = 2)
          (map (\<lambda>notePair. SplitN notePair (CHR '' '') 2) (Split notesListOut nl)))"

definition isCommitObject :: "exec \<Rightarrow> (string \<Rightarrow> string) \<Rightarrow> GitRepo \<Rightarrow> string \<Rightarrow> bool" where
  "isCommitObject git TrimSpace repo objHash =
     (case runGitCommand git TrimSpace repo [''cat-file'', ''-t'', objHash] of
        (objType, None) \<Rightarrow> objType = ''commit''
      | (objType, Some err) \<Rightarrow> False)"

text \<open>
  \<open>Scan\<close> is one call of \<^verbatim>\<open>Scanner.Scan\<close> with the default split function
  \<^verbatim>\<open>bufio.ScanLines\<close> followed by \<^verbatim>\<open>Text\<close> and, at the end, \<^verbatim>\<open>Err\<close>: the next line
  without its end-of-line marker, or no line at the end of the input (\<^verbatim>\<open>Err\<close> is then
  \<^verbatim>\<open>nil\<close>) and at a line that does not fit the scanner's buffer (\<^verbatim>\<open>bufio.ErrTooLong\<close>).
\<close>

definition MaxScanTokenSize :: nat where
  "MaxScanTokenSize = 64 * 1024"

definition dropCR :: "string \<Rightarrow> string" where
  "dropCR data = (if data \<noteq> [] \<and> last data = CHR 0x0D then butlast data else data)"

definition Scan :: "string \<Rightarrow> string option \<times> string \<times> error option" where
  "Scan scanner =
     (if scanner = [] then (None, [], None)
      else let data = takeWhile (\<lambda>c. c \<noteq> nl) scanner
           in if MaxScanTokenSize \<le> length data then (None, scanner, Some ErrTooLong)
              else (Some (dropCR data), drop (Suc (length data)) scanner, None))"

definition stringsReader :: "string list \<Rightarrow> string" where
  "stringsReader s = concat (map (\<lambda>str. str @ [nl]) s)"

text \<open>
  \<open>GetAllNotes_scan\<close> is the loop over the lines of \<^verbatim>\<open>git notes list\<close> with the check of
  \<^verbatim>\<open>outScanner.Err()\<close> after it; \<open>cn\<close> holds the pairs of object hash and notes hash.
\<close>

function GetAllNotes_scan :: "string \<Rightarrow> (string \<times> string) list \<Rightarrow> error + (string \<times> string) list" where
  "GetAllNotes_scan outScanner cn =
     (case Scan outScanner of
        (None, outScanner', None) \<Rightarrow> Inr cn
      | (None, outScanner', Some err) \<Rightarrow>
          Inl (Errorf ''Failure parsing the output of 'git-notes list': %v'' [ArgErr err])
      | (Some line, outScanner', err) \<Rightarrow>
          (let lineParts = Split line (CHR '' '')
           in if length lineParts \<noteq> 2
              then Inl (Errorf ''Malformed output line from 'git-notes list': %q'' [ArgStr line])
              else GetAllNotes_scan outScanner' (cn @ [(lineParts ! 1, lineParts ! 0)])))"
  by pat_completeness auto
termination
  by (relation "measure (\<lambda>(outScanner, cn). length outScanner)")
     (auto simp: Scan_def Let_def split: if_splits)

declare GetAllNotes_scan.simps [simp del]

definition GetAllNotes ::
  "exec \<Rightarrow> nat \<Rightarrow> GitRepo \<Rightarrow> string \<Rightarrow> (error + (string \<rightharpoonup> string list)) \<times> call list" where
  "GetAllNotes git maxAlloc repo notesRef =
     (case runGitCommandWithIO_logged git repo [] [''notes'', ''--ref'', notesRef, ''list''] [] of
        (list, log1) \<Rightarrow>
     (case run_err list of
        Some err \<Rightarrow> (Inl err, log1)
      | None \<Rightarrow>
     (case GetAllNotes_scan (run_stdout list) [] of
        Inl err \<Rightarrow> (Inl err, log1)
      | Inr cn \<Rightarrow>
     (let objHashes = map fst cn;
          noteBlobs = map snd cn
      in case runGitCommandWithIO_logged git repo (stringsReader objHashes)
                [''cat-file'', ''--batch-check=%(objectname) %(objecttype)''] log1 of
           (check, log2) \<Rightarrow>
     (case run_err check of
        Some err \<Rightarrow> (Inl (Errorf ''Failure performing a batch file check: %v'' [ArgErr err]), log2)
      | None \<Rightarrow>
     (case splitBatchCheckOutput (run_stdout check) of
        Inl err \<Rightarrow>
          (Inl (Errorf ''Failure parsing the output of a batch file check: %v'' [ArgErr err]), log2)
      | Inr isCommit \<Rightarrow>
     (case runGitCommandWithIO_logged git repo (stringsReader noteBlobs)
             [''cat-file'', ''--batch=%(objectname)'' @ [nl] @ ''%(objectsize)''] log2 of
        (batch, log3) \<Rightarrow>
     (case run_err batch of
        Some err \<Rightarrow> (Inl (Errorf ''Failure performing a batch file read: %v'' [ArgErr err]), log3)
      | None \<Rightarrow>
     (case splitBatchCatFileOutput maxAlloc (run_stdout batch) of
        Inl (Panic p) \<Rightarrow> (Inl (Panic p), log3)
      | Inl err \<Rightarrow>
          (Inl (Errorf ''Failure parsing the output of a batch file read: %v'' [ArgErr err]), log3)
      | Inr noteContentsMap \<Rightarrow>
          (Inr (fold (\<lambda>(ObjectHash, NotesHash) commitNotesMap.
                        if isCommit ObjectHash \<noteq> Some True then commitNotesMap
                        else commitNotesMap(ObjectHash \<mapsto>
                               Split (case noteContentsMap NotesHash of
                                        None \<Rightarrow> [] | Some noteBytes \<Rightarrow> noteBytes) nl))
                     cn Map.empty),
           log3))))))))))"

section \<open>Package review\<close>

subsection \<open>Data\<close>

text \<open>
  Modelled from the spec: the types \<^verbatim>\<open>comment.Comment\<close> and \<^verbatim>\<open>request.Request\<close>, whose
  packages \<^verbatim>\<open>review/comment\<close> and \<^verbatim>\<open>review/request\<close> are not among the sources. The
  records keep the fields of section 3 of the specification that \<^verbatim>\<open>review.go\<close> reads, with
  the types it reads them at. The identity of a comment (the specification's \<open>Hash\<close>) is
  the key under which \<^verbatim>\<open>comment.ParseAllValid\<close> returns it.
\<close>

record Comment =
  Timestamp :: string
  Author :: string
  Parent :: string
  Description :: string
  Resolved :: "bool option"

record Request =
  ReviewRef :: string
  TargetRef :: string
  Description :: string

datatype CommentThread =
  CommentThread (Comment: Comment) (Children: "CommentThread list") (Resolved: "bool option")

record Review =
  Revision :: string
  Request :: Request
  Comments :: "CommentThread list"
  Resolved :: "bool option"
  Submitted :: bool

subsection \<open>Resolution status\<close>

text \<open>
  \<^verbatim>\<open>sort.Sort(byTimestamp(threads))\<close> orders the slice by the byte-wise order of the
  timestamp strings. The model is the stable insertion sort of the library;
  \<^verbatim>\<open>sort.Sort\<close> is not stable and may leave threads with equal timestamps in another
  order. Nothing proved below depends on the order of threads with equal timestamps.
\<close>

definition sortByTimestamp :: "CommentThread list \<Rightarrow> CommentThread list" where
  "sortByTimestamp threads = sort_key (\<lambda>thread. Timestamp (CommentThread.Comment thread)) threads"

lemma size_sortByTimestamp:
  "size_list size (sortByTimestamp threads) = size_list size threads"
proof -
  have "mset (sortByTimestamp threads) = mset threads"
    by (simp add: sortByTimestamp_def)
  then have "sum_mset (image_mset size (mset (sortByTimestamp threads)))
           = sum_mset (image_mset size (mset threads))"
    by simp
  moreover have "length (sortByTimestamp threads) = length threads"
    by (simp add: sortByTimestamp_def)
  ultimately show ?thesis
    by (simp add: size_list_conv_sum_list flip: sum_mset_sum_list mset_map)
qed

text \<open>
  \<open>updateThreadsStatus\<close> returns the aggregate and the slice as the call leaves it;
  \<open>updateResolvedStatus\<close> returns the thread its receiver points to, as the call leaves it.

  \<open>rangeThreads\<close> is the \<^verbatim>\<open>for _, thread := range threads\<close> loop. Its state is
  \<^verbatim>\<open>noUnresolved\<close>, whether \<^verbatim>\<open>result\<close> has been assigned (\<^verbatim>\<open>result\<close> is then the address
  of \<^verbatim>\<open>noUnresolved\<close>, so the value returned is the final \<^verbatim>\<open>noUnresolved\<close>), and the
  elements already visited. The loop variable is a copy of the element: the call
  \<^verbatim>\<open>thread.updateResolvedStatus()\<close> sets \<^verbatim>\<open>Resolved\<close> in the copy only. The copy shares the
  array of its \<^verbatim>\<open>Children\<close> with the element, so the element's children are left as the
  recursive call sorted them, and the element's own \<^verbatim>\<open>Resolved\<close> is left as it was.
\<close>

function updateThreadsStatus :: "CommentThread list \<Rightarrow> bool option \<times> CommentThread list"
  and rangeThreads ::
    "CommentThread list \<Rightarrow> bool \<Rightarrow> bool \<Rightarrow> CommentThread list \<Rightarrow> bool option \<times> CommentThread list"
  and updateResolvedStatus :: "CommentThread \<Rightarrow> CommentThread"
where
  "updateThreadsStatus threads = rangeThreads (sortByTimestamp threads) True False []"
| "rangeThreads [] noUnresolved assigned visited =
     (if assigned then Some noUnresolved else None, visited)"
| "rangeThreads (element # rest) noUnresolved assigned visited =
     (let thread = updateResolvedStatus element;
          element' = CommentThread (CommentThread.Comment element) (Children thread)
                       (CommentThread.Resolved element)
      in case CommentThread.Resolved thread of
           None \<Rightarrow> rangeThreads rest noUnresolved assigned (visited @ [element'])
         | Some r \<Rightarrow> rangeThreads rest (noUnresolved \<and> r) True (visited @ [element']))"
| "updateResolvedStatus (CommentThread comment children old) =
     (case updateThreadsStatus children of
        (None, children') \<Rightarrow> CommentThread comment children' (Comment.Resolved comment)
      | (Some resolved, children') \<Rightarrow>
          if \<not> resolved then CommentThread comment children' (Some resolved)
          else if (case Comment.Resolved comment of None \<Rightarrow> True | Some own \<Rightarrow> \<not> own)
          then CommentThread comment children' None
          else CommentThread comment children' (Some resolved))"
  by pat_completeness auto
termination
  by (relation "measures [\<lambda>x. case x of Inl ts \<Rightarrow> size_list size ts
                                    | Inr (Inl (ts, _)) \<Rightarrow> size_list size ts
                                    | Inr (Inr t) \<Rightarrow> size t,
                          \<lambda>x. case x of Inl ts \<Rightarrow> 1 | _ \<Rightarrow> 0]")
     (auto simp: size_sortByTimestamp)

text \<open>
  The presence-aware conjunction in the words of the specification (section 4.3, step 2):
  start with \<open>allTrue = true\<close> and \<open>anyPresent = false\<close>; every state that is not unset sets
  \<open>anyPresent\<close> and is conjoined to \<open>allTrue\<close>; the result is unset when \<open>anyPresent\<close> is
  false and \<open>allTrue\<close> otherwise.
\<close>

definition childAgg_step :: "bool option \<Rightarrow> bool \<times> bool \<Rightarrow> bool \<times> bool" where
  "childAgg_step state acc =
     (case state of None \<Rightarrow> acc | Some childState \<Rightarrow> (fst acc \<and> childState, True))"

definition childAgg :: "bool option list \<Rightarrow> bool option" where
  "childAgg states =
     (let (allTrue, anyPresent) = fold childAgg_step states (True, False)
      in if anyPresent then Some allTrue else None)"

text \<open>The tri-state that resolution aggregation gives a thread node.\<close>

definition resolved :: "CommentThread \<Rightarrow> bool option" where
  "resolved thread = CommentThread.Resolved (updateResolvedStatus thread)"

text \<open>
  The nodes of a thread, root first, in the order in which \<^verbatim>\<open>showThread\<close> prints them, and
  the nodes of a forest.
\<close>

fun threadNodes :: "CommentThread \<Rightarrow> CommentThread list" where
  "threadNodes (CommentThread comment children r) =
     CommentThread comment children r # concat (map threadNodes children)"

definition forestNodes :: "CommentThread list \<Rightarrow> CommentThread list" where
  "forestNodes threads = concat (map threadNodes threads)"

subsection \<open>Loading the comments of a review\<close>

text \<open>
  \<open>loadComments\<close> is modelled from the map \<^verbatim>\<open>commentsByHash\<close> on. A Go map is a partial
  function; the order in which a \<^verbatim>\<open>range\<close> loop visits its keys is not specified, so each
  of the two loops takes the order of its visits as a list of keys.

  \<open>loadComments_index\<close> is the first loop: one thread, without children, for each comment.
  \<open>loadComments_collect\<close> is the second loop. In its last branch \<^verbatim>\<open>parent\<close> is a copy
  of the map's element (the map holds \<^verbatim>\<open>CommentThread\<close> values, not pointers): the
  assignment to \<^verbatim>\<open>parent.Children\<close> changes the copy, which the loop then drops, and
  neither the map nor \<^verbatim>\<open>threads\<close> changes.
\<close>

definition loadComments_index ::
  "string list \<Rightarrow> (string \<rightharpoonup> Comment) \<Rightarrow> (string \<rightharpoonup> CommentThread)" where
  "loadComments_index hashes commentsByHash =
     fold (\<lambda>hash threadsByHash.
             case commentsByHash hash of
               None \<Rightarrow> threadsByHash
             | Some comment \<Rightarrow>
                 (case threadsByHash hash of
                    Some thread \<Rightarrow> threadsByHash
                  | None \<Rightarrow> threadsByHash(hash \<mapsto> CommentThread comment [] None)))
          hashes Map.empty"

definition loadComments_collect ::
  "string list \<Rightarrow> (string \<rightharpoonup> CommentThread) \<Rightarrow> CommentThread list" where
  "loadComments_collect hashes threadsByHash =
     fold (\<lambda>hash threads.
             case threadsByHash hash of
               None \<Rightarrow> threads
             | Some thread \<Rightarrow>
                 if Parent (CommentThread.Comment thread) = [] then threads @ [thread]
                 else (case threadsByHash (Parent (CommentThread.Comment thread)) of
                         None \<Rightarrow> threads
                       | Some parent \<Rightarrow>
                           (let parent' = CommentThread (CommentThread.Comment parent)
                                            (Children parent @ [thread]) (CommentThread.Resolved parent)
                            in threads)))
          hashes []"

definition loadComments ::
  "string list \<Rightarrow> string list \<Rightarrow> (string \<rightharpoonup> Comment) \<Rightarrow> CommentThread list" where
  "loadComments order1 order2 commentsByHash =
     loadComments_collect order2 (loadComments_index order1 commentsByHash)"

subsection \<open>Listing reviews\<close>

text \<open>
  \<open>ListOpen\<close> and \<open>GetCurrent\<close> take what \<^verbatim>\<open>ListAll()\<close> and
  \<^verbatim>\<open>repository.GetHeadRef()\<close> return as parameters. \<open>GetCurrent\<close> returns the error
  (\<open>Inl\<close>), or the review found, \<open>None\<close> for the \<^verbatim>\<open>nil\<close> pointer. A \<^verbatim>\<open>nil\<close> slice is the
  empty list: \<^verbatim>\<open>matchingReviews\<close> is \<^verbatim>\<open>nil\<close> exactly when nothing was appended to it.
\<close>

definition ListOpen :: "Review list \<Rightarrow> Review list" where
  "ListOpen listAll = filter (\<lambda>review. \<not> Submitted review) listAll"

definition GetCurrent :: "string \<Rightarrow> Review list \<Rightarrow> error + Review option" where
  "GetCurrent reviewRef listAll =
     (let matchingReviews = filter (\<lambda>review. ReviewRef (Review.Request review) = reviewRef) (ListOpen listAll)
      in if matchingReviews = [] then Inr None
         else if length matchingReviews \<noteq> 1
         then Inl (Errorf (''There are %d open reviews for the ref '' @ [quote] @ ''%s'' @ [quote])
                     [ArgInt (int (length matchingReviews)), ArgStr reviewRef])
         else Inr (Some (matchingReviews ! 0)))"

subsection \<open>Printing\<close>

text \<open>
  \<open>unixDate n\<close> stands for \<^verbatim>\<open>time.Unix(n, 0).Format(time.UnixDate)\<close>, the rendering of
  \<open>n\<close> seconds after the epoch in the local time zone of the process.
\<close>

definition reformatTimestamp :: "(int \<Rightarrow> string) \<Rightarrow> string \<Rightarrow> string" where
  "reformatTimestamp unixDate timestamp =
     (case ParseInt timestamp 64 of
        Inl err \<Rightarrow> timestamp
      | Inr parsedTimestamp \<Rightarrow> unixDate parsedTimestamp)"

section \<open>Lemmas\<close>

subsection \<open>strconv\<close>

lemma ParseUint_digits_value:
  assumes "n0 < 2 ^ 64"
  shows "ParseUint_digits 64 ds n0 = Inr m \<longleftrightarrow>
           list_all isDigit ds \<and> m = n0 * 10 ^ length ds + decimal ds \<and> m < 2 ^ 64"
  using assms
proof (induction ds arbitrary: n0)
  case Nil
  then show ?case by auto
next
  case (Cons c cs)
  let ?n1 = "n0 * 10 + digitValue c"
  have val: "n0 * 10 ^ length (c # cs) + decimal (c # cs) = ?n1 * 10 ^ length cs + decimal cs"
    by (simp add: algebra_simps)
  have grows: "?n1 \<le> ?n1 * 10 ^ length cs + decimal cs"
    by (simp add: trans_le_add1)
  show ?case
  proof (cases "isDigit c")
    case False
    then show ?thesis by (auto simp: isDigit_def)
  next
    case digit: True
    show ?thesis
    proof (cases "?n1 < 2 ^ 64")
      case False
      then have "ParseUint_digits 64 (c # cs) n0 \<noteq> Inr m"
        using digit by (simp add: isDigit_def Let_def)
      moreover have "\<not> (m = n0 * 10 ^ length (c # cs) + decimal (c # cs) \<and> m < 2 ^ 64)"
        using False grows unfolding val by linarith
      ultimately show ?thesis by blast
    next
      case True
      then have "n0 < (2 ^ 64 - 1) div 10 + 1"
        by simp
      with True digit have "ParseUint_digits 64 (c # cs) n0 = ParseUint_digits 64 cs ?n1"
        by (simp add: isDigit_def Let_def)
      with Cons.IH [OF True] digit show ?thesis
        unfolding val by simp
    qed
  qed
qed

lemma ParseUint_value:
  "ParseUint ds 64 = Inr m \<longleftrightarrow> ds \<noteq> [] \<and> list_all isDigit ds \<and> m = decimal ds \<and> m < 2 ^ 64"
  using ParseUint_digits_value [of 0 ds m] by (simp add: ParseUint_def)

lemma ParseInt_base10_int64:
  "ParseInt s 64 = Inr n \<longleftrightarrow> base10_int64 s n"
proof (cases s)
  case Nil
  then show ?thesis by (simp add: ParseInt_def base10_int64_def)
next
  case (Cons c cs)
  define digits where "digits = (if c = CHR ''+'' \<or> c = CHR ''-'' then cs else s)"
  have parse: "ParseInt s 64 =
                 (case ParseUint digits 64 of
                    Inl e \<Rightarrow> Inl (NumError s e)
                  | Inr un \<Rightarrow>
                      if c \<noteq> CHR ''-'' \<and> un \<ge> 2 ^ 63 then Inl (NumError s ErrRange)
                      else if c = CHR ''-'' \<and> un > 2 ^ 63 then Inl (NumError s ErrRange)
                      else Inr (if c = CHR ''-'' then - int un else int un))"
    using Cons by (simp add: ParseInt_def digits_def Let_def split: sum.splits num_err.splits)
  have spec: "base10_int64 s n \<longleftrightarrow>
                digits \<noteq> [] \<and> list_all isDigit digits
                \<and> n = (if c = CHR ''-'' then - int (decimal digits) else int (decimal digits))
                \<and> - (2 ^ 63) \<le> n \<and> n < 2 ^ 63"
    using Cons by (simp add: base10_int64_def digits_def Let_def)
  show ?thesis
  proof (cases "ParseUint digits 64")
    case (Inl e)
    then have "\<not> (digits \<noteq> [] \<and> list_all isDigit digits \<and> decimal digits < 2 ^ 64)"
      using ParseUint_value [of digits "decimal digits"] by auto
    then have "\<not> base10_int64 s n"
      unfolding spec by (auto split: if_splits)
    moreover have "ParseInt s 64 \<noteq> Inr n"
      unfolding parse using Inl by simp
    ultimately show ?thesis by blast
  next
    case (Inr un)
    then have un: "digits \<noteq> []" "list_all isDigit digits" "un = decimal digits" "un < 2 ^ 64"
      using ParseUint_value [of digits un] by auto
    have "ParseInt s 64 =
            (if c \<noteq> CHR ''-'' \<and> un \<ge> 2 ^ 63 then Inl (NumError s ErrRange)
             else if c = CHR ''-'' \<and> un > 2 ^ 63 then Inl (NumError s ErrRange)
             else Inr (if c = CHR ''-'' then - int un else int un))"
      unfolding parse using Inr by simp
    moreover have "base10_int64 s n \<longleftrightarrow>
            n = (if c = CHR ''-'' then - int un else int un) \<and> - (2 ^ 63) \<le> n \<and> n < 2 ^ 63"
      unfolding spec using un by simp
    ultimately show ?thesis
      by auto
  qed
qed

lemma ParseUint_intSize:
  "ParseUint ds 0 = ParseUint ds 64"
  by (simp add: ParseUint_def intSize_def)

lemma Atoi_ParseInt:
  "Atoi s = ParseInt s 64"
  by (cases s) (simp_all add: Atoi_def ParseInt_def ParseUint_intSize intSize_def Let_def)

lemma Atoi_base10_int64:
  "Atoi s = Inr n \<longleftrightarrow> base10_int64 s n"
  by (simp add: Atoi_ParseInt ParseInt_base10_int64)

subsection \<open>splitBatchCatFileOutput\<close>

lemma TrimSuffix_line:
  "TrimSuffix (line @ [c]) [c] = line"
  by (simp add: TrimSuffix_def HasSuffix_def)

lemma splitBatchCatFileOutput_round_bad_size:
  assumes "nl \<notin> set nameLine" and "nl \<notin> set sizeLine" and "Atoi sizeLine = Inl err"
  shows "splitBatchCatFileOutput_round maxAlloc contentsMap (nameLine @ nl # sizeLine @ nl # rest) =
           Inl (Inl (Errorf ''Failure while parsing the next object size: %q - %v''
                       [ArgStr nameLine, ArgErr err]))"
  using assms
  by (simp add: splitBatchCatFileOutput_round_def ReadString_found TrimSuffix_line)

lemma splitBatchCatFileOutput_round_size_eof:
  assumes "nl \<notin> set nameLine" and "nl \<notin> set sizeLine"
  shows "splitBatchCatFileOutput_round maxAlloc contentsMap (nameLine @ nl # sizeLine) =
           Inl (Inl (Errorf ''Failure while reading the next object size: %q - %v''
                       [ArgStr nameLine, ArgErr EOF]))"
proof -
  have "ReadString sizeLine nl = (sizeLine, [], Some EOF)"
    using assms(2) by (simp add: ReadString_def)
  with assms(1) show ?thesis
    by (simp add: splitBatchCatFileOutput_round_def ReadString_found TrimSuffix_line)
qed

lemma splitBatchCatFileOutput_round_too_large:
  assumes "nl \<notin> set nameLine" and "nl \<notin> set sizeLine" and "Atoi sizeLine = Inr sz"
    and "sz < 0 \<or> int maxAlloc < sz"
  shows "splitBatchCatFileOutput_round maxAlloc contentsMap (nameLine @ nl # sizeLine @ nl # rest) =
           Inl (Inl (Panic ''makeslice: len out of range''))"
  using assms
  by (simp add: splitBatchCatFileOutput_round_def ReadString_found TrimSuffix_line)

lemma splitBatchCatFileOutput_round_truncated:
  assumes "nl \<notin> set nameLine" and "nl \<notin> set sizeLine" and "Atoi sizeLine = Inr sz"
    and "int (length rest) < sz" and "sz \<le> int maxAlloc"
  shows "splitBatchCatFileOutput_round maxAlloc contentsMap (nameLine @ nl # sizeLine @ nl # rest) =
           Inl (Inr (contentsMap(nameLine \<mapsto> rest @ replicate (nat sz - length rest) (CHR 0x00))))"
proof -
  from assms(4,5) have "length rest < nat sz" and "\<not> (sz < 0 \<or> int maxAlloc < sz)"
    by linarith+
  with assms(1-3) show ?thesis
    by (simp add: splitBatchCatFileOutput_round_def ReadString_found TrimSuffix_line
        readContents_short)
qed

lemma splitBatchCatFileOutput_round_entry:
  assumes "nl \<notin> set nameLine" and "nl \<notin> set sizeLine" and "Atoi sizeLine = Inr sz"
    and "0 \<le> sz" and "sz \<le> int (length rest)" and "sz \<le> int maxAlloc"
  shows "splitBatchCatFileOutput_round maxAlloc contentsMap (nameLine @ nl # sizeLine @ nl # rest) =
           Inr (contentsMap(nameLine \<mapsto> take (nat sz) rest),
                dropWhile (\<lambda>c. c = nl) (drop (nat sz) rest))"
proof -
  from assms(4-6) have "nat sz \<le> length rest" and "\<not> (sz < 0 \<or> int maxAlloc < sz)"
    by linarith+
  with assms(1-3) show ?thesis
    by (simp add: splitBatchCatFileOutput_round_def ReadString_found TrimSuffix_line
        readContents_enough)
qed

lemma splitBatchCatFileOutput_loop_result:
  "splitBatchCatFileOutput_round maxAlloc contentsMap reader = Inl result \<Longrightarrow>
   splitBatchCatFileOutput_loop maxAlloc contentsMap reader = result"
  by (subst splitBatchCatFileOutput_loop.simps) simp

lemma splitBatchCatFileOutput_loop_next:
  "splitBatchCatFileOutput_round maxAlloc contentsMap reader = Inr (contentsMap', reader') \<Longrightarrow>
   splitBatchCatFileOutput_loop maxAlloc contentsMap reader =
     splitBatchCatFileOutput_loop maxAlloc contentsMap' reader'"
  by (subst splitBatchCatFileOutput_loop.simps) simp

text \<open>
  What a round that starts at an entry does with the entry's size line, for every state of
  the loop: a size line that is not a base-10 integer of 64 bits, or that the end of the
  input cuts short, ends the parse with an error; a size that \<^verbatim>\<open>make\<close> refuses aborts the
  run; a size within the limit but larger than the number of bytes left ends the parse with
  a successful result, in which the content is the bytes left followed by zero bytes.
\<close>

lemma splitBatchCatFileOutput_loop_size_line:
  assumes "nl \<notin> set nameLine" and "nl \<notin> set sizeLine"
  shows "((\<forall>n. \<not> base10_int64 sizeLine n) \<longrightarrow>
            (\<exists>err. Atoi sizeLine = Inl err \<and>
               splitBatchCatFileOutput_loop maxAlloc contentsMap (nameLine @ nl # sizeLine @ nl # rest) =
                 Inl (Errorf ''Failure while parsing the next object size: %q - %v''
                        [ArgStr nameLine, ArgErr err])))
       \<and> splitBatchCatFileOutput_loop maxAlloc contentsMap (nameLine @ nl # sizeLine) =
            Inl (Errorf ''Failure while reading the next object size: %q - %v''
                   [ArgStr nameLine, ArgErr EOF])
       \<and> (\<forall>sz. base10_int64 sizeLine sz \<and> (sz < 0 \<or> int maxAlloc < sz) \<longrightarrow>
            splitBatchCatFileOutput_loop maxAlloc contentsMap (nameLine @ nl # sizeLine @ nl # rest) =
              Inl (Panic ''makeslice: len out of range''))
       \<and> (\<forall>sz. base10_int64 sizeLine sz \<and> int (length rest) < sz \<and> sz \<le> int maxAlloc \<longrightarrow>
            splitBatchCatFileOutput_loop maxAlloc contentsMap (nameLine @ nl # sizeLine @ nl # rest) =
              Inr (contentsMap(nameLine \<mapsto> rest @ replicate (nat sz - length rest) (CHR 0x00))))"
proof (intro conjI impI allI)
  assume "\<forall>n. \<not> base10_int64 sizeLine n"
  then obtain err where "Atoi sizeLine = Inl err"
    using Atoi_base10_int64 [of sizeLine] by (cases "Atoi sizeLine") auto
  with assms show "\<exists>err. Atoi sizeLine = Inl err \<and>
      splitBatchCatFileOutput_loop maxAlloc contentsMap (nameLine @ nl # sizeLine @ nl # rest) =
        Inl (Errorf ''Failure while parsing the next object size: %q - %v''
               [ArgStr nameLine, ArgErr err])"
    by (auto intro!: splitBatchCatFileOutput_loop_result
        simp: splitBatchCatFileOutput_round_bad_size)
next
  from assms show "splitBatchCatFileOutput_loop maxAlloc contentsMap (nameLine @ nl # sizeLine) =
      Inl (Errorf ''Failure while reading the next object size: %q - %v''
             [ArgStr nameLine, ArgErr EOF])"
    by (auto intro!: splitBatchCatFileOutput_loop_result
        simp: splitBatchCatFileOutput_round_size_eof)
next
  fix sz
  assume "base10_int64 sizeLine sz \<and> (sz < 0 \<or> int maxAlloc < sz)"
  then have "Atoi sizeLine = Inr sz" and "sz < 0 \<or> int maxAlloc < sz"
    by (simp_all add: Atoi_base10_int64)
  then have "splitBatchCatFileOutput_round maxAlloc contentsMap (nameLine @ nl # sizeLine @ nl # rest) =
      Inl (Inl (Panic ''makeslice: len out of range''))"
    using assms by (intro splitBatchCatFileOutput_round_too_large)
  then show "splitBatchCatFileOutput_loop maxAlloc contentsMap (nameLine @ nl # sizeLine @ nl # rest) =
      Inl (Panic ''makeslice: len out of range'')"
    by (rule splitBatchCatFileOutput_loop_result)
next
  fix sz
  assume "base10_int64 sizeLine sz \<and> int (length rest) < sz \<and> sz \<le> int maxAlloc"
  then have "Atoi sizeLine = Inr sz" and "int (length rest) < sz" and "sz \<le> int maxAlloc"
    by (simp_all add: Atoi_base10_int64)
  then have "splitBatchCatFileOutput_round maxAlloc contentsMap (nameLine @ nl # sizeLine @ nl # rest) =
      Inl (Inr (contentsMap(nameLine \<mapsto> rest @ replicate (nat sz - length rest) (CHR 0x00))))"
    using assms by (intro splitBatchCatFileOutput_round_truncated)
  then show "splitBatchCatFileOutput_loop maxAlloc contentsMap (nameLine @ nl # sizeLine @ nl # rest) =
      Inr (contentsMap(nameLine \<mapsto> rest @ replicate (nat sz - length rest) (CHR 0x00)))"
    by (rule splitBatchCatFileOutput_loop_result)
qed

text \<open>
  A size that \<^verbatim>\<open>make\<close> refuses, at the allocation limit of linux/amd64: the run aborts.
\<close>

lemma splitBatchCatFileOutput_size_above_limit:
  "splitBatchCatFileOutput (2 ^ 48) (''abc'' @ nl # ''9223372036854775807'' @ nl # ''xy'') =
     Inl (Panic ''makeslice: len out of range'')"
proof -
  have sz: "Atoi ''9223372036854775807'' = Inr 9223372036854775807"
    by (simp add: Atoi_def ParseInt_def ParseUint_def intSize_def digitValue_def)
  have "splitBatchCatFileOutput_round (2 ^ 48) Map.empty
          (''abc'' @ nl # ''9223372036854775807'' @ nl # ''xy'') =
        Inl (Inl (Panic ''makeslice: len out of range''))"
    by (rule splitBatchCatFileOutput_round_too_large [where sz = 9223372036854775807])
       (simp_all add: sz)
  then show ?thesis
    by (simp add: splitBatchCatFileOutput_def splitBatchCatFileOutput_loop_result)
qed

subsection \<open>ListNotedRevisions\<close>

lemma ListNotedRevisions_pair_skip:
  assumes "length (SplitN notePair (CHR '' '') 2) \<noteq> 2"
  shows "ListNotedRevisions_pair git ts repo notePair (revisions, log) = (revisions, log)"
  using assms by (simp add: ListNotedRevisions_pair_def Let_def)

lemma ListNotedRevisions_pair_query:
  assumes "length (SplitN notePair (CHR '' '') 2) = 2"
  shows "ListNotedRevisions_pair git ts repo notePair (revisions, log) =
           (revisions @ filter (isCommitObject git ts repo) [SplitN notePair (CHR '' '') 2 ! 1],
            log @ [([''cat-file'', ''-t'', SplitN notePair (CHR '' '') 2 ! 1], [])])"
proof -
  obtain objType err where r:
    "runGitCommand git ts repo [''cat-file'', ''-t'', SplitN notePair (CHR '' '') 2 ! 1] = (objType, err)"
    by (cases "runGitCommand git ts repo [''cat-file'', ''-t'', SplitN notePair (CHR '' '') 2 ! 1]")
  show ?thesis
    using assms r
    by (cases err)
       (simp_all add: ListNotedRevisions_pair_def runGitCommand_logged_def isCommitObject_def
          Let_def)
qed

lemma ListNotedRevisions_fold:
  "fold (ListNotedRevisions_pair git ts repo) notePairs (revisions, log) =
     (revisions @ filter (isCommitObject git ts repo)
        (map (\<lambda>noteParts. noteParts ! 1)
           (filter (\<lambda>noteParts. length noteParts = 2)
              (map (\<lambda>notePair. SplitN notePair (CHR '' '') 2) notePairs))),
      log @ map (\<lambda>objHash. ([''cat-file'', ''-t'', objHash], []))
        (map (\<lambda>noteParts. noteParts ! 1)
           (filter (\<lambda>noteParts. length noteParts = 2)
              (map (\<lambda>notePair. SplitN notePair (CHR '' '') 2) notePairs))))"
proof (induction notePairs arbitrary: revisions log)
  case Nil
  then show ?case by simp
next
  case (Cons notePair notePairs)
  show ?case
  proof (cases "length (SplitN notePair (CHR '' '') 2) = 2")
    case False
    then show ?thesis
      by (simp add: ListNotedRevisions_pair_skip Cons.IH)
  next
    case True
    then show ?thesis
      by (simp add: ListNotedRevisions_pair_query Cons.IH)
  qed
qed

lemma ListNotedRevisions_listed:
  assumes "run_err (git (Path repo) [''notes'', ''--ref'', notesRef, ''list''] []) = None"
  shows "ListNotedRevisions git ts repo notesRef =
           (filter (isCommitObject git ts repo)
              (listedObjects (ts (run_stdout (git (Path repo) [''notes'', ''--ref'', notesRef, ''list''] [])))),
            ([''notes'', ''--ref'', notesRef, ''list''], []) #
              map (\<lambda>objHash. ([''cat-file'', ''-t'', objHash], []))
                (listedObjects (ts (run_stdout (git (Path repo) [''notes'', ''--ref'', notesRef, ''list''] [])))))"
  using assms
  by (simp add: ListNotedRevisions_def runGitCommand_logged_def runGitCommand_def
      runGitCommandRaw_def runGitCommandWithIO_def Let_def ListNotedRevisions_fold listedObjects_def)

lemma ListNotedRevisions_list_failure:
  assumes "run_err (git (Path repo) [''notes'', ''--ref'', notesRef, ''list''] []) = Some e"
  shows "ListNotedRevisions git ts repo notesRef = ([], [([''notes'', ''--ref'', notesRef, ''list''], [])])"
  using assms
  by (simp add: ListNotedRevisions_def runGitCommand_logged_def runGitCommand_def
      runGitCommandRaw_def runGitCommandWithIO_def Let_def)

lemma ListNotedRevisions_query_failure:
  assumes "run_err (git (Path repo) [''cat-file'', ''-t'', objHash] []) = Some e"
  shows "objHash \<notin> set (fst (ListNotedRevisions git ts repo notesRef))"
proof -
  have "\<not> isCommitObject git ts repo objHash"
    using assms
    by (simp add: isCommitObject_def runGitCommand_def runGitCommandRaw_def
        runGitCommandWithIO_def Let_def)
  then show ?thesis
    by (cases "run_err (git (Path repo) [''notes'', ''--ref'', notesRef, ''list''] [])")
       (simp_all add: ListNotedRevisions_listed ListNotedRevisions_list_failure)
qed

subsection \<open>GetAllNotes on a store with one note\<close>

lemma GetAllNotes_scan_one_line:
  "GetAllNotes_scan ''n1 o1\<newline>'' [] = Inr [(''o1'', ''n1'')]"
  apply (subst GetAllNotes_scan.simps)
  apply (simp add: Scan_def MaxScanTokenSize_def dropCR_def)
  apply (subst GetAllNotes_scan.simps)
  apply (simp add: Scan_def)
  done

lemma splitBatchCheckOutput_one_commit:
  "splitBatchCheckOutput ''o1 commit\<newline>'' = Inr [''o1'' \<mapsto> True]"
  apply (simp add: splitBatchCheckOutput_def)
  apply (subst splitBatchCheckOutput_loop.simps)
  apply (simp add: splitBatchCheckOutput_round_def ReadString_def TrimSuffix_def HasSuffix_def)
  apply (subst splitBatchCheckOutput_loop.simps)
  apply (simp add: splitBatchCheckOutput_round_def ReadString_def)
  done

subsection \<open>Resolution status\<close>

lemma childAgg_step_fold:
  "fold childAgg_step states (a, p) =
     (a \<and> (\<forall>s \<in> set states. s \<noteq> Some False), p \<or> (\<exists>s \<in> set states. s \<noteq> None))"
  by (induction states arbitrary: a p) (auto simp: childAgg_step_def split: option.splits)

lemma childAgg_set:
  "childAgg states =
     (if \<forall>s \<in> set states. s = None then None else Some (\<forall>s \<in> set states. s \<noteq> Some False))"
  by (auto simp: childAgg_def childAgg_step_fold)

lemma rangeThreads_aggregate:
  "fst (rangeThreads threads noUnresolved assigned visited) =
     (let (allTrue, anyPresent) = fold childAgg_step (map resolved threads) (noUnresolved, assigned)
      in if anyPresent then Some allTrue else None)"
proof (induction threads arbitrary: noUnresolved assigned visited)
  case Nil
  then show ?case by simp
next
  case (Cons element rest)
  show ?case
  proof (cases "resolved element")
    case None
    then show ?thesis
      using Cons.IH by (simp add: resolved_def childAgg_step_def Let_def)
  next
    case (Some r)
    then show ?thesis
      using Cons.IH by (simp add: resolved_def childAgg_step_def Let_def conj_commute)
  qed
qed

lemma updateThreadsStatus_childAgg:
  "fst (updateThreadsStatus threads) = childAgg (map resolved threads)"
proof -
  have "fst (updateThreadsStatus threads) = childAgg (map resolved (sortByTimestamp threads))"
    by (simp add: rangeThreads_aggregate childAgg_def)
  also have "\<dots> = childAgg (map resolved threads)"
    by (simp add: childAgg_set sortByTimestamp_def)
  finally show ?thesis .
qed

lemma resolved_table:
  "resolved thread =
     (case childAgg (map resolved (Children thread)) of
        None \<Rightarrow> Comment.Resolved (CommentThread.Comment thread)
      | Some False \<Rightarrow> Some False
      | Some True \<Rightarrow> (if Comment.Resolved (CommentThread.Comment thread) = Some True then Some True else None))"
proof (cases thread)
  case (CommentThread comment children old)
  obtain agg children' where u: "updateThreadsStatus children = (agg, children')"
    by (cases "updateThreadsStatus children")
  then have "agg = childAgg (map resolved children)"
    using updateThreadsStatus_childAgg [of children] by simp
  with u CommentThread show ?thesis
    by (auto simp: resolved_def split: option.splits bool.splits)
qed

lemma resolved_all_unset:
  "(\<forall>t \<in> set (threadNodes thread). Comment.Resolved (CommentThread.Comment t) = None)
     \<Longrightarrow> resolved thread = None"
proof (induction thread)
  case (CommentThread comment children old)
  have "\<forall>c \<in> set children. resolved c = None"
    using CommentThread by auto
  then have "childAgg (map resolved children) = None"
    by (simp add: childAgg_set)
  then show ?case
    using CommentThread.prems by (simp add: resolved_table)
qed

text \<open>
  What \<open>updateThreadsStatus\<close> leaves in the slice: the elements in sorted order, each with
  the \<open>Resolved\<close> field it had before the call. The status that the loop computes for an
  element is set in the loop's copy and is not stored in the slice.
\<close>

lemma rangeThreads_elements:
  "map CommentThread.Comment (snd (rangeThreads threads noUnresolved assigned visited)) =
     map CommentThread.Comment (visited @ threads)
   \<and> map CommentThread.Resolved (snd (rangeThreads threads noUnresolved assigned visited)) =
     map CommentThread.Resolved (visited @ threads)"
proof (induction threads arbitrary: noUnresolved assigned visited)
  case Nil
  then show ?case by simp
next
  case (Cons element rest)
  show ?case
    by (cases "CommentThread.Resolved (updateResolvedStatus element)")
       (simp_all add: Cons.IH Let_def)
qed

lemma updateThreadsStatus_elements:
  "map CommentThread.Comment (snd (updateThreadsStatus threads)) =
     map CommentThread.Comment (sortByTimestamp threads)
   \<and> map CommentThread.Resolved (snd (updateThreadsStatus threads)) =
     map CommentThread.Resolved (sortByTimestamp threads)"
  using rangeThreads_elements [of "sortByTimestamp threads" True False "[]"] by simp

subsection \<open>Loading comments\<close>

lemma loadComments_index_threads:
  assumes "loadComments_index hashes commentsByHash hash = Some thread"
  shows "Children thread = []"
proof -
  have "\<forall>h t. fold (\<lambda>hash threadsByHash.
             case commentsByHash hash of
               None \<Rightarrow> threadsByHash
             | Some comment \<Rightarrow>
                 (case threadsByHash hash of
                    Some thread \<Rightarrow> threadsByHash
                  | None \<Rightarrow> threadsByHash(hash \<mapsto> CommentThread comment [] None)))
          hashes m h = Some t \<longrightarrow> Children t = []"
    if "\<forall>h t. m h = Some t \<longrightarrow> Children t = []" for m
    using that
  proof (induction hashes arbitrary: m)
    case Nil
    then show ?case by simp
  next
    case (Cons a hashes)
    show ?case
      unfolding fold_Cons comp_apply
      by (rule Cons.IH) (use Cons.prems in \<open>auto split: option.splits\<close>)
  qed
  from this [of Map.empty] assms show ?thesis
    unfolding loadComments_index_def by simp
qed

lemma loadComments_collect_roots:
  assumes "thread \<in> set (loadComments_collect hashes threadsByHash)"
  shows "Parent (CommentThread.Comment thread) = [] \<and> (\<exists>hash. threadsByHash hash = Some thread)"
proof -
  have "\<forall>t \<in> set (fold (\<lambda>hash threads.
             case threadsByHash hash of
               None \<Rightarrow> threads
             | Some thread \<Rightarrow>
                 if Parent (CommentThread.Comment thread) = [] then threads @ [thread]
                 else (case threadsByHash (Parent (CommentThread.Comment thread)) of
                         None \<Rightarrow> threads
                       | Some parent \<Rightarrow>
                           (let parent' = CommentThread (CommentThread.Comment parent)
                                            (Children parent @ [thread]) (CommentThread.Resolved parent)
                            in threads)))
          hashes acc). Parent (CommentThread.Comment t) = [] \<and> (\<exists>hash. threadsByHash hash = Some t)"
    if "\<forall>t \<in> set acc. Parent (CommentThread.Comment t) = [] \<and> (\<exists>hash. threadsByHash hash = Some t)" for acc
    using that
  proof (induction hashes arbitrary: acc)
    case Nil
    then show ?case by simp
  next
    case (Cons a hashes)
    show ?case
      unfolding fold_Cons comp_apply
      by (rule Cons.IH) (use Cons.prems in \<open>auto split: option.splits\<close>)
  qed
  from this [of "[]"] assms show ?thesis
    unfolding loadComments_collect_def by simp
qed

lemma loadComments_roots_only:
  assumes "thread \<in> set (loadComments order1 order2 commentsByHash)"
  shows "Parent (CommentThread.Comment thread) = [] \<and> Children thread = []"
  using loadComments_collect_roots [OF assms [unfolded loadComments_def]]
    loadComments_index_threads by blast

lemma forestNodes_no_children:
  assumes "\<forall>t \<in> set threads. Children t = []"
  shows "forestNodes threads = threads"
  using assms
proof (induction threads)
  case Nil
  then show ?case by (simp add: forestNodes_def)
next
  case (Cons t threads)
  then show ?case by (cases t) (simp add: forestNodes_def)
qed

section \<open>Properties\<close>

text \<open>
  C1. A comment whose parent is present in the collection is expected to be a child of the
  parent's thread node in the forest that \<open>loadComments\<close> returns. The code does not
  attach it: for the comments A (no parent) and B (parent A), in either order of visits, the
  forest is the single root A with no children, and B is nowhere in it.
\<close>

theorem loadComments_child_not_attached:
  "loadComments [''A'', ''B''] [''A'', ''B'']
     [''A'' \<mapsto> \<lparr>Timestamp = ''1'', Author = ''a'', Parent = [], Comment.Description = ''d'', Comment.Resolved = Some True\<rparr>,
      ''B'' \<mapsto> \<lparr>Timestamp = ''2'', Author = ''b'', Parent = ''A'', Comment.Description = ''e'', Comment.Resolved = Some False\<rparr>]
   = [CommentThread \<lparr>Timestamp = ''1'', Author = ''a'', Parent = [], Comment.Description = ''d'', Comment.Resolved = Some True\<rparr> [] None]
   \<and> loadComments [''B'', ''A''] [''B'', ''A'']
     [''A'' \<mapsto> \<lparr>Timestamp = ''1'', Author = ''a'', Parent = [], Comment.Description = ''d'', Comment.Resolved = Some True\<rparr>,
      ''B'' \<mapsto> \<lparr>Timestamp = ''2'', Author = ''b'', Parent = ''A'', Comment.Description = ''e'', Comment.Resolved = Some False\<rparr>]
   = [CommentThread \<lparr>Timestamp = ''1'', Author = ''a'', Parent = [], Comment.Description = ''d'', Comment.Resolved = Some True\<rparr> [] None]"
  by (simp add: loadComments_def loadComments_index_def loadComments_collect_def)

text \<open>
  C2. An entry whose declared size exceeds the number of bytes left before the end of the
  input is expected to end the parse with an error. The code reports none: for an entry that
  declares ten bytes with five bytes left, the result is successful and holds the five bytes
  followed by five zero bytes; the same happens to a short entry that follows a complete
  one. This holds for every allocation limit of ten bytes or more.
\<close>

theorem splitBatchCatFileOutput_truncated_entry:
  "splitBatchCatFileOutput (10 + k) (''abc'' @ nl # ''10'' @ nl # ''hello'') =
     Inr [''abc'' \<mapsto> ''hello'' @ replicate 5 (CHR 0x00)]
   \<and> splitBatchCatFileOutput (10 + k)
       (''n1'' @ nl # ''5'' @ nl # ''hello'' @ nl # ''n2'' @ nl # ''9'' @ nl # ''abc'') =
     Inr [''n1'' \<mapsto> ''hello'', ''n2'' \<mapsto> ''abc'' @ replicate 6 (CHR 0x00)]"
proof
  have size: "Atoi ''10'' = Inr 10"
    by (simp add: Atoi_def ParseInt_def ParseUint_def intSize_def digitValue_def)
  have "splitBatchCatFileOutput_round (10 + k) Map.empty (''abc'' @ nl # ''10'' @ nl # ''hello'') =
          Inl (Inr [''abc'' \<mapsto> ''hello'' @ replicate (nat 10 - length ''hello'') (CHR 0x00)])"
    by (rule splitBatchCatFileOutput_round_truncated) (simp_all add: size)
  then show "splitBatchCatFileOutput (10 + k) (''abc'' @ nl # ''10'' @ nl # ''hello'') =
      Inr [''abc'' \<mapsto> ''hello'' @ replicate 5 (CHR 0x00)]"
    by (simp add: splitBatchCatFileOutput_def splitBatchCatFileOutput_loop_result)
next
  have five: "Atoi ''5'' = Inr 5" and nine: "Atoi ''9'' = Inr 9"
    by (simp_all add: Atoi_def ParseInt_def ParseUint_def intSize_def digitValue_def)
  have "splitBatchCatFileOutput_round (10 + k) Map.empty
          (''n1'' @ nl # ''5'' @ nl # (''hello'' @ nl # ''n2'' @ nl # ''9'' @ nl # ''abc'')) =
        Inr ([''n1'' \<mapsto> take (nat 5) (''hello'' @ nl # ''n2'' @ nl # ''9'' @ nl # ''abc'')],
             dropWhile (\<lambda>c. c = nl) (drop (nat 5) (''hello'' @ nl # ''n2'' @ nl # ''9'' @ nl # ''abc'')))"
    by (rule splitBatchCatFileOutput_round_entry) (simp_all add: five)
  then have first: "splitBatchCatFileOutput_loop (10 + k) Map.empty
          (''n1'' @ nl # ''5'' @ nl # ''hello'' @ nl # ''n2'' @ nl # ''9'' @ nl # ''abc'') =
        splitBatchCatFileOutput_loop (10 + k) [''n1'' \<mapsto> ''hello''] (''n2'' @ nl # ''9'' @ nl # ''abc'')"
    by (simp add: splitBatchCatFileOutput_loop_next)
  have "splitBatchCatFileOutput_round (10 + k) [''n1'' \<mapsto> ''hello''] (''n2'' @ nl # ''9'' @ nl # ''abc'') =
        Inl (Inr ([''n1'' \<mapsto> ''hello'',
                   ''n2'' \<mapsto> ''abc'' @ replicate (nat 9 - length ''abc'') (CHR 0x00)]))"
    by (rule splitBatchCatFileOutput_round_truncated) (simp_all add: nine)
  then have "splitBatchCatFileOutput_loop (10 + k) [''n1'' \<mapsto> ''hello''] (''n2'' @ nl # ''9'' @ nl # ''abc'') =
        Inr [''n1'' \<mapsto> ''hello'', ''n2'' \<mapsto> ''abc'' @ replicate 6 (CHR 0x00)]"
    by (simp add: splitBatchCatFileOutput_loop_result)
  with first show "splitBatchCatFileOutput (10 + k)
       (''n1'' @ nl # ''5'' @ nl # ''hello'' @ nl # ''n2'' @ nl # ''9'' @ nl # ''abc'') =
     Inr [''n1'' \<mapsto> ''hello'', ''n2'' \<mapsto> ''abc'' @ replicate 6 (CHR 0x00)]"
    by (simp add: splitBatchCatFileOutput_def)
qed

text \<open>
  C3. The aggregate of a forest is the presence-aware conjunction of the resolved tri-states
  of its roots; it is unset exactly when the resolved tri-state of every root is unset; and
  it is unset whenever no node of the forest has a verdict of its own.
\<close>

theorem forest_aggregate_unset:
  "fst (updateThreadsStatus forest) = childAgg (map resolved forest)
   \<and> (fst (updateThreadsStatus forest) = None \<longleftrightarrow> (\<forall>root \<in> set forest. resolved root = None))
   \<and> ((\<forall>t \<in> set (forestNodes forest). Comment.Resolved (CommentThread.Comment t) = None)
        \<longrightarrow> fst (updateThreadsStatus forest) = None)"
proof -
  have agg: "fst (updateThreadsStatus forest) = childAgg (map resolved forest)"
    by (rule updateThreadsStatus_childAgg)
  have roots: "childAgg (map resolved forest) = None \<longleftrightarrow> (\<forall>root \<in> set forest. resolved root = None)"
    by (auto simp: childAgg_set)
  have "\<forall>root \<in> set forest. resolved root = None"
    if "\<forall>t \<in> set (forestNodes forest). Comment.Resolved (CommentThread.Comment t) = None"
    using that by (auto simp: forestNodes_def intro!: resolved_all_unset)
  with agg roots show ?thesis by simp
qed

theorem forest_aggregate_unset_witness:
  "fst (updateThreadsStatus
     [CommentThread \<lparr>Timestamp = ''1'', Author = ''a'', Parent = [], Comment.Description = ''d'', Comment.Resolved = None\<rparr>
        [CommentThread \<lparr>Timestamp = ''2'', Author = ''b'', Parent = ''A'', Comment.Description = ''e'', Comment.Resolved = None\<rparr> [] None]
        None]) = None"
proof -
  let ?B = "CommentThread \<lparr>Timestamp = ''2'', Author = ''b'', Parent = ''A'', Comment.Description = ''e'', Comment.Resolved = None\<rparr> [] None"
  let ?A = "CommentThread \<lparr>Timestamp = ''1'', Author = ''a'', Parent = [], Comment.Description = ''d'', Comment.Resolved = None\<rparr> [?B] None"
  have "\<forall>t \<in> set (forestNodes [?A]). Comment.Resolved (CommentThread.Comment t) = None"
    by (simp add: forestNodes_def)
  with forest_aggregate_unset [of "[?A]"] show ?thesis
    by blast
qed

text \<open>
  C3, as the claim states it, fails: the aggregate can be unset although a node of the
  forest has a verdict. A root without a verdict whose only child says true resolves to
  unset.
\<close>

theorem forest_aggregate_unset_counterexample:
  "\<not> (\<forall>forest. fst (updateThreadsStatus forest) = None \<longleftrightarrow>
        (\<forall>t \<in> set (forestNodes forest). Comment.Resolved (CommentThread.Comment t) = None))"
proof
  let ?B = "CommentThread \<lparr>Timestamp = ''2'', Author = ''b'', Parent = ''A'', Comment.Description = ''e'', Comment.Resolved = Some True\<rparr> [] None"
  let ?A = "CommentThread \<lparr>Timestamp = ''1'', Author = ''a'', Parent = [], Comment.Description = ''d'', Comment.Resolved = None\<rparr> [?B] None"
  assume "\<forall>forest. fst (updateThreadsStatus forest) = None \<longleftrightarrow>
        (\<forall>t \<in> set (forestNodes forest). Comment.Resolved (CommentThread.Comment t) = None)"
  then have "fst (updateThreadsStatus [?A]) = None \<longleftrightarrow>
        (\<forall>t \<in> set (forestNodes [?A]). Comment.Resolved (CommentThread.Comment t) = None)"
    by blast
  moreover have "fst (updateThreadsStatus [?A]) = None"
    by (simp add: sortByTimestamp_def)
  moreover have "\<not> (\<forall>t \<in> set (forestNodes [?A]). Comment.Resolved (CommentThread.Comment t) = None)"
    by (simp add: forestNodes_def)
  ultimately show False by blast
qed

text \<open>
  C4. When the presence-aware conjunction of the children's resolved tri-states is false,
  \<open>updateResolvedStatus\<close> sets the node's \<open>Resolved\<close> to false, whatever the node's own
  comment says.
\<close>

theorem childAgg_false_resolved_false:
  assumes "childAgg (map resolved (Children thread)) = Some False"
  shows "CommentThread.Resolved (updateResolvedStatus thread) = Some False"
  using assms resolved_table [of thread] by (simp add: resolved_def)

theorem childAgg_false_resolved_false_witness:
  "CommentThread.Resolved (updateResolvedStatus
     (CommentThread \<lparr>Timestamp = ''1'', Author = ''a'', Parent = [], Comment.Description = ''d'', Comment.Resolved = Some True\<rparr>
        [CommentThread \<lparr>Timestamp = ''2'', Author = ''b'', Parent = ''A'', Comment.Description = ''e'', Comment.Resolved = Some False\<rparr> [] None,
         CommentThread \<lparr>Timestamp = ''3'', Author = ''c'', Parent = ''A'', Comment.Description = ''f'', Comment.Resolved = None\<rparr> [] None]
        None)) = Some False"
proof -
  let ?B = "CommentThread \<lparr>Timestamp = ''2'', Author = ''b'', Parent = ''A'', Comment.Description = ''e'', Comment.Resolved = Some False\<rparr> [] None"
  let ?C = "CommentThread \<lparr>Timestamp = ''3'', Author = ''c'', Parent = ''A'', Comment.Description = ''f'', Comment.Resolved = None\<rparr> [] None"
  let ?A = "CommentThread \<lparr>Timestamp = ''1'', Author = ''a'', Parent = [], Comment.Description = ''d'', Comment.Resolved = Some True\<rparr> [?B, ?C] None"
  have "childAgg (map resolved (Children ?A)) = Some False"
    by (simp add: childAgg_def childAgg_step_def resolved_def sortByTimestamp_def)
  then show ?thesis
    by (rule childAgg_false_resolved_false)
qed

text \<open>
  C5. When the presence-aware conjunction of the children's resolved tri-states is true,
  \<open>updateResolvedStatus\<close> sets the node's \<open>Resolved\<close> to unset if the node's own comment
  is unset or false, and to true if the node's own comment is true.
\<close>

theorem childAgg_true_resolved:
  assumes "childAgg (map resolved (Children thread)) = Some True"
  shows "(Comment.Resolved (CommentThread.Comment thread) = None \<longrightarrow>
            CommentThread.Resolved (updateResolvedStatus thread) = None)
       \<and> (Comment.Resolved (CommentThread.Comment thread) = Some False \<longrightarrow>
            CommentThread.Resolved (updateResolvedStatus thread) = None)
       \<and> (Comment.Resolved (CommentThread.Comment thread) = Some True \<longrightarrow>
            CommentThread.Resolved (updateResolvedStatus thread) = Some True)"
  using assms resolved_table [of thread] by (simp add: resolved_def)

theorem childAgg_true_resolved_witness:
  "CommentThread.Resolved (updateResolvedStatus
     (CommentThread \<lparr>Timestamp = ''1'', Author = ''a'', Parent = [], Comment.Description = ''d'', Comment.Resolved = Some False\<rparr>
        [CommentThread \<lparr>Timestamp = ''2'', Author = ''b'', Parent = ''A'', Comment.Description = ''e'', Comment.Resolved = Some True\<rparr> [] None]
        None)) = None
   \<and> CommentThread.Resolved (updateResolvedStatus
     (CommentThread \<lparr>Timestamp = ''1'', Author = ''a'', Parent = [], Comment.Description = ''d'', Comment.Resolved = None\<rparr>
        [CommentThread \<lparr>Timestamp = ''2'', Author = ''b'', Parent = ''A'', Comment.Description = ''e'', Comment.Resolved = Some True\<rparr> [] None]
        None)) = None
   \<and> CommentThread.Resolved (updateResolvedStatus
     (CommentThread \<lparr>Timestamp = ''1'', Author = ''a'', Parent = [], Comment.Description = ''d'', Comment.Resolved = Some True\<rparr>
        [CommentThread \<lparr>Timestamp = ''2'', Author = ''b'', Parent = ''A'', Comment.Description = ''e'', Comment.Resolved = Some True\<rparr> [] None]
        None)) = Some True"
proof -
  let ?B = "CommentThread \<lparr>Timestamp = ''2'', Author = ''b'', Parent = ''A'', Comment.Description = ''e'', Comment.Resolved = Some True\<rparr> [] None"
  let ?A = "\<lambda>own. CommentThread \<lparr>Timestamp = ''1'', Author = ''a'', Parent = [], Comment.Description = ''d'', Comment.Resolved = own\<rparr> [?B] None"
  have "childAgg (map resolved (Children (?A own))) = Some True" for own
    by (simp add: childAgg_def childAgg_step_def resolved_def sortByTimestamp_def)
  from childAgg_true_resolved [OF this [of "Some False"]] childAgg_true_resolved [OF this [of None]]
       childAgg_true_resolved [OF this [of "Some True"]]
  show ?thesis
    by simp
qed

text \<open>
  C6. A comment whose \<open>Parent\<close> names an identity that is not in the collection is not
  in the forest that \<open>loadComments\<close> returns: it is the comment of no root and of no node
  reachable from a root, in whatever order the two loops visit the keys.
\<close>

theorem orphan_not_in_forest:
  assumes "commentsByHash hash = Some comment"
    and "Parent comment \<noteq> []"
    and "commentsByHash (Parent comment) = None"
  shows "comment \<notin> CommentThread.Comment ` set (loadComments order1 order2 commentsByHash)
       \<and> comment \<notin> CommentThread.Comment ` set (forestNodes (loadComments order1 order2 commentsByHash))"
proof -
  have roots: "comment \<notin> CommentThread.Comment ` set (loadComments order1 order2 commentsByHash)"
    using loadComments_roots_only assms(2) by blast
  have "forestNodes (loadComments order1 order2 commentsByHash) = loadComments order1 order2 commentsByHash"
    by (rule forestNodes_no_children) (use loadComments_roots_only in blast)
  with roots show ?thesis by simp
qed

theorem orphan_not_in_forest_witness:
  "\<lparr>Timestamp = ''2'', Author = ''c'', Parent = ''X'', Comment.Description = ''f'', Comment.Resolved = None\<rparr>
     \<notin> CommentThread.Comment ` set (forestNodes (loadComments [''A'', ''C''] [''C'', ''A'']
       [''A'' \<mapsto> \<lparr>Timestamp = ''1'', Author = ''a'', Parent = [], Comment.Description = ''d'', Comment.Resolved = None\<rparr>,
        ''C'' \<mapsto> \<lparr>Timestamp = ''2'', Author = ''c'', Parent = ''X'', Comment.Description = ''f'', Comment.Resolved = None\<rparr>]))"
proof -
  let ?a = "\<lparr>Timestamp = ''1'', Author = ''a'', Parent = [], Comment.Description = ''d'', Comment.Resolved = None\<rparr>"
  let ?c = "\<lparr>Timestamp = ''2'', Author = ''c'', Parent = ''X'', Comment.Description = ''f'', Comment.Resolved = None\<rparr>"
  let ?m = "[''A'' \<mapsto> ?a, ''C'' \<mapsto> ?c]"
  have 1: "?m ''C'' = Some ?c" by simp
  have 2: "Parent ?c \<noteq> []" by simp
  have 3: "?m (Parent ?c) = None" by simp
  from orphan_not_in_forest [OF 1 2 3, of "[''A'', ''C'']" "[''C'', ''A'']"] show ?thesis
    by blast
qed

text \<open>
  C7. Among the open reviews, let \<open>matching\<close> be those whose \<open>ReviewRef\<close> is the working
  ref. With no match \<open>GetCurrent\<close> returns no review and no error; with exactly one match
  it returns that review; with more than one it returns an error built from the number of
  matches and the ref.
\<close>

theorem GetCurrent_matches:
  assumes "matching = filter (\<lambda>review. ReviewRef (Review.Request review) = reviewRef) (ListOpen listAll)"
  shows "(matching = [] \<longrightarrow> GetCurrent reviewRef listAll = Inr None)
       \<and> (\<forall>review. matching = [review] \<longrightarrow> GetCurrent reviewRef listAll = Inr (Some review))
       \<and> (1 < length matching \<longrightarrow>
            GetCurrent reviewRef listAll =
              Inl (Errorf (''There are %d open reviews for the ref '' @ [quote] @ ''%s'' @ [quote])
                     [ArgInt (int (length matching)), ArgStr reviewRef]))"
  using assms by (auto simp: GetCurrent_def Let_def)

theorem GetCurrent_matches_witness:
  "GetCurrent ''refs/heads/feature''
     [\<lparr>Revision = ''r1'', Request = \<lparr>ReviewRef = ''refs/heads/feature'', TargetRef = ''refs/heads/master'', Request.Description = ''one''\<rparr>,
        Comments = [], Review.Resolved = None, Submitted = False\<rparr>,
      \<lparr>Revision = ''r2'', Request = \<lparr>ReviewRef = ''refs/heads/feature'', TargetRef = ''refs/heads/master'', Request.Description = ''two''\<rparr>,
        Comments = [], Review.Resolved = None, Submitted = False\<rparr>]
   = Inl (Errorf (''There are %d open reviews for the ref '' @ [quote] @ ''%s'' @ [quote])
            [ArgInt 2, ArgStr ''refs/heads/feature''])
   \<and> GetCurrent ''refs/heads/other''
     [\<lparr>Revision = ''r1'', Request = \<lparr>ReviewRef = ''refs/heads/feature'', TargetRef = ''refs/heads/master'', Request.Description = ''one''\<rparr>,
        Comments = [], Review.Resolved = None, Submitted = False\<rparr>]
   = Inr None
   \<and> GetCurrent ''refs/heads/feature''
     [\<lparr>Revision = ''r1'', Request = \<lparr>ReviewRef = ''refs/heads/feature'', TargetRef = ''refs/heads/master'', Request.Description = ''one''\<rparr>,
        Comments = [], Review.Resolved = None, Submitted = False\<rparr>,
      \<lparr>Revision = ''r2'', Request = \<lparr>ReviewRef = ''refs/heads/feature'', TargetRef = ''refs/heads/master'', Request.Description = ''two''\<rparr>,
        Comments = [], Review.Resolved = None, Submitted = True\<rparr>]
   = Inr (Some \<lparr>Revision = ''r1'', Request = \<lparr>ReviewRef = ''refs/heads/feature'', TargetRef = ''refs/heads/master'', Request.Description = ''one''\<rparr>,
        Comments = [], Review.Resolved = None, Submitted = False\<rparr>)"
proof -
  let ?r1 = "\<lparr>Revision = ''r1'', Request = \<lparr>ReviewRef = ''refs/heads/feature'', TargetRef = ''refs/heads/master'', Request.Description = ''one''\<rparr>,
        Comments = [], Review.Resolved = None, Submitted = False\<rparr>"
  let ?r2 = "\<lparr>Revision = ''r2'', Request = \<lparr>ReviewRef = ''refs/heads/feature'', TargetRef = ''refs/heads/master'', Request.Description = ''two''\<rparr>,
        Comments = [], Review.Resolved = None, Submitted = False\<rparr>"
  let ?r3 = "\<lparr>Revision = ''r2'', Request = \<lparr>ReviewRef = ''refs/heads/feature'', TargetRef = ''refs/heads/master'', Request.Description = ''two''\<rparr>,
        Comments = [], Review.Resolved = None, Submitted = True\<rparr>"
  have two: "[?r1, ?r2] = filter (\<lambda>review. ReviewRef (Review.Request review) = ''refs/heads/feature'') (ListOpen [?r1, ?r2])"
    by (simp add: ListOpen_def)
  have zero: "[] = filter (\<lambda>review. ReviewRef (Review.Request review) = ''refs/heads/other'') (ListOpen [?r1])"
    by (simp add: ListOpen_def)
  have one: "[?r1] = filter (\<lambda>review. ReviewRef (Review.Request review) = ''refs/heads/feature'') (ListOpen [?r1, ?r3])"
    by (simp add: ListOpen_def)
  from GetCurrent_matches [OF two] GetCurrent_matches [OF zero] GetCurrent_matches [OF one]
  show ?thesis by simp
qed

text \<open>
  C8. What the read operations do when the store reports a failure. The second component of
  each result is the list of the commands that the operation ran, in order, so a command
  that is not retried stands there once.

  \<^item> \<open>GetNotes\<close> runs the \<^verbatim>\<open>show\<close> command once and returns the empty sequence; its result
    carries no error.
  \<^item> When the listing command fails, \<open>ListNotedRevisions\<close> runs it once and returns the empty
    sequence, and \<open>GetAllNotes\<close> runs it once and returns its error as it is.
  \<^item> When the listing command succeeds, \<open>ListNotedRevisions\<close> runs one type query for each
    listed object, in order, and returns the objects whose query succeeds and answers
    \<^verbatim>\<open>commit\<close>. An object whose type query fails is left out, the others are kept, and the
    result carries no error.
  \<^item> When the batch type check or the batch content read fails, \<open>GetAllNotes\<close> has run each
    command up to that one once, runs nothing after it, and returns no partial result but an
    error: the error of the command wrapped in a message that names the step.
\<close>

theorem store_failure_results:
  fixes git :: exec
  defines "listArgs \<equiv> \<lambda>notesRef. [''notes'', ''--ref'', notesRef, ''list'']"
    and "checkArgs \<equiv> [''cat-file'', ''--batch-check=%(objectname) %(objecttype)'']"
    and "readArgs \<equiv> [''cat-file'', ''--batch=%(objectname)'' @ [nl] @ ''%(objectsize)'']"
  shows "(run_err (git (Path repo) [''notes'', ''--ref'', notesRef, ''show'', revision] []) = Some e \<longrightarrow>
            GetNotes git ts repo notesRef revision =
              ([], [([''notes'', ''--ref'', notesRef, ''show'', revision], [])]))
       \<and> (run_err (git (Path repo) (listArgs notesRef) []) = Some e \<longrightarrow>
            ListNotedRevisions git ts repo notesRef = ([], [(listArgs notesRef, [])])
            \<and> GetAllNotes git maxAlloc repo notesRef = (Inl e, [(listArgs notesRef, [])]))
       \<and> (run_err (git (Path repo) (listArgs notesRef) []) = None \<longrightarrow>
            ListNotedRevisions git ts repo notesRef =
              (filter (isCommitObject git ts repo)
                 (listedObjects (ts (run_stdout (git (Path repo) (listArgs notesRef) [])))),
               (listArgs notesRef, []) #
                 map (\<lambda>objHash. ([''cat-file'', ''-t'', objHash], []))
                   (listedObjects (ts (run_stdout (git (Path repo) (listArgs notesRef) []))))))
       \<and> (\<forall>objHash. run_err (git (Path repo) [''cat-file'', ''-t'', objHash] []) = Some e \<longrightarrow>
            \<not> isCommitObject git ts repo objHash
            \<and> objHash \<notin> set (fst (ListNotedRevisions git ts repo notesRef)))
       \<and> (\<forall>cn. run_err (git (Path repo) (listArgs notesRef) []) = None
              \<and> GetAllNotes_scan (run_stdout (git (Path repo) (listArgs notesRef) [])) [] = Inr cn
              \<and> run_err (git (Path repo) checkArgs (stringsReader (map fst cn))) = Some e \<longrightarrow>
            GetAllNotes git maxAlloc repo notesRef =
              (Inl (Errorf ''Failure performing a batch file check: %v'' [ArgErr e]),
               [(listArgs notesRef, []), (checkArgs, stringsReader (map fst cn))]))
       \<and> (\<forall>cn isCommit. run_err (git (Path repo) (listArgs notesRef) []) = None
              \<and> GetAllNotes_scan (run_stdout (git (Path repo) (listArgs notesRef) [])) [] = Inr cn
              \<and> run_err (git (Path repo) checkArgs (stringsReader (map fst cn))) = None
              \<and> splitBatchCheckOutput (run_stdout (git (Path repo) checkArgs
                           (stringsReader (map fst cn)))) = Inr isCommit
              \<and> run_err (git (Path repo) readArgs (stringsReader (map snd cn))) = Some e \<longrightarrow>
            GetAllNotes git maxAlloc repo notesRef =
              (Inl (Errorf ''Failure performing a batch file read: %v'' [ArgErr e]),
               [(listArgs notesRef, []), (checkArgs, stringsReader (map fst cn)),
                (readArgs, stringsReader (map snd cn))]))"
proof -
  have shown: "run_err (git (Path repo) [''notes'', ''--ref'', notesRef, ''show'', revision] []) = Some e \<longrightarrow>
      GetNotes git ts repo notesRef revision =
        ([], [([''notes'', ''--ref'', notesRef, ''show'', revision], [])])"
    by (simp add: GetNotes_def runGitCommand_logged_def runGitCommand_def runGitCommandRaw_def
        runGitCommandWithIO_def Let_def)
  have listed_fails: "run_err (git (Path repo) [''notes'', ''--ref'', notesRef, ''list''] []) = Some e \<longrightarrow>
      ListNotedRevisions git ts repo notesRef = ([], [([''notes'', ''--ref'', notesRef, ''list''], [])])
      \<and> GetAllNotes git maxAlloc repo notesRef = (Inl e, [([''notes'', ''--ref'', notesRef, ''list''], [])])"
    by (simp add: ListNotedRevisions_list_failure GetAllNotes_def runGitCommandWithIO_logged_def
        runGitCommandWithIO_def Let_def)
  have listed: "run_err (git (Path repo) [''notes'', ''--ref'', notesRef, ''list''] []) = None \<longrightarrow>
      ListNotedRevisions git ts repo notesRef =
        (filter (isCommitObject git ts repo)
           (listedObjects (ts (run_stdout (git (Path repo) [''notes'', ''--ref'', notesRef, ''list''] [])))),
         ([''notes'', ''--ref'', notesRef, ''list''], []) #
           map (\<lambda>objHash. ([''cat-file'', ''-t'', objHash], []))
             (listedObjects (ts (run_stdout (git (Path repo) [''notes'', ''--ref'', notesRef, ''list''] [])))))"
    by (simp add: ListNotedRevisions_listed)
  have query: "\<forall>objHash. run_err (git (Path repo) [''cat-file'', ''-t'', objHash] []) = Some e \<longrightarrow>
      \<not> isCommitObject git ts repo objHash
      \<and> objHash \<notin> set (fst (ListNotedRevisions git ts repo notesRef))"
    by (simp add: ListNotedRevisions_query_failure isCommitObject_def runGitCommand_def
        runGitCommandRaw_def runGitCommandWithIO_def Let_def)
  have batch: "(\<forall>cn. run_err (git (Path repo) [''notes'', ''--ref'', notesRef, ''list''] []) = None
        \<and> GetAllNotes_scan (run_stdout (git (Path repo) [''notes'', ''--ref'', notesRef, ''list''] [])) [] = Inr cn
        \<and> run_err (git (Path repo) [''cat-file'', ''--batch-check=%(objectname) %(objecttype)'']
                     (stringsReader (map fst cn))) = Some e \<longrightarrow>
      GetAllNotes git maxAlloc repo notesRef =
        (Inl (Errorf ''Failure performing a batch file check: %v'' [ArgErr e]),
         [([''notes'', ''--ref'', notesRef, ''list''], []),
          ([''cat-file'', ''--batch-check=%(objectname) %(objecttype)''], stringsReader (map fst cn))]))
    \<and> (\<forall>cn isCommit. run_err (git (Path repo) [''notes'', ''--ref'', notesRef, ''list''] []) = None
        \<and> GetAllNotes_scan (run_stdout (git (Path repo) [''notes'', ''--ref'', notesRef, ''list''] [])) [] = Inr cn
        \<and> run_err (git (Path repo) [''cat-file'', ''--batch-check=%(objectname) %(objecttype)'']
                     (stringsReader (map fst cn))) = None
        \<and> splitBatchCheckOutput (run_stdout (git (Path repo)
                     [''cat-file'', ''--batch-check=%(objectname) %(objecttype)'']
                     (stringsReader (map fst cn)))) = Inr isCommit
        \<and> run_err (git (Path repo) [''cat-file'', ''--batch=%(objectname)'' @ [nl] @ ''%(objectsize)'']
                     (stringsReader (map snd cn))) = Some e \<longrightarrow>
      GetAllNotes git maxAlloc repo notesRef =
        (Inl (Errorf ''Failure performing a batch file read: %v'' [ArgErr e]),
         [([''notes'', ''--ref'', notesRef, ''list''], []),
          ([''cat-file'', ''--batch-check=%(objectname) %(objecttype)''], stringsReader (map fst cn)),
          ([''cat-file'', ''--batch=%(objectname)'' @ [nl] @ ''%(objectsize)''], stringsReader (map snd cn))]))"
    by (simp add: GetAllNotes_def runGitCommandWithIO_logged_def runGitCommandWithIO_def Let_def)
  from shown listed_fails listed query batch show ?thesis
    unfolding listArgs_def checkArgs_def readArgs_def by blast
qed

theorem store_failure_results_witness:
  "GetNotes (\<lambda>dir args stdin. \<lparr>run_err = Some (ExitError 128), run_stdout = [], run_stderr = ''fatal: bad ref''\<rparr>)
      id \<lparr>Path = ''/repo''\<rparr> ''refs/notes/devtools/discuss'' ''abc''
     = ([], [([''notes'', ''--ref'', ''refs/notes/devtools/discuss'', ''show'', ''abc''], [])])
   \<and> ListNotedRevisions (\<lambda>dir args stdin. \<lparr>run_err = Some (ExitError 128), run_stdout = [], run_stderr = ''fatal: bad ref''\<rparr>)
      id \<lparr>Path = ''/repo''\<rparr> ''refs/notes/devtools/reviews''
     = ([], [([''notes'', ''--ref'', ''refs/notes/devtools/reviews'', ''list''], [])])
   \<and> GetAllNotes (\<lambda>dir args stdin. \<lparr>run_err = Some (ExitError 128), run_stdout = [], run_stderr = ''fatal: bad ref''\<rparr>)
      (2 ^ 48) \<lparr>Path = ''/repo''\<rparr> ''refs/notes/devtools/reviews''
     = (Inl (ExitError 128), [([''notes'', ''--ref'', ''refs/notes/devtools/reviews'', ''list''], [])])
   \<and> ListNotedRevisions (\<lambda>dir args stdin.
          if hd args = ''notes'' then \<lparr>run_err = None, run_stdout = ''n1 o1\<newline>n2 o2'', run_stderr = []\<rparr>
          else if args = [''cat-file'', ''-t'', ''o2''] then \<lparr>run_err = None, run_stdout = ''commit'', run_stderr = []\<rparr>
          else \<lparr>run_err = Some (ExitError 128), run_stdout = [], run_stderr = ''fatal''\<rparr>)
      id \<lparr>Path = ''/repo''\<rparr> ''refs/notes/devtools/reviews''
     = ([''o2''],
        [([''notes'', ''--ref'', ''refs/notes/devtools/reviews'', ''list''], []),
         ([''cat-file'', ''-t'', ''o1''], []), ([''cat-file'', ''-t'', ''o2''], [])])
   \<and> ''o1'' \<notin> set (fst (ListNotedRevisions (\<lambda>dir args stdin.
          if hd args = ''notes'' then \<lparr>run_err = None, run_stdout = ''n1 o1\<newline>n2 o2'', run_stderr = []\<rparr>
          else if args = [''cat-file'', ''-t'', ''o2''] then \<lparr>run_err = None, run_stdout = ''commit'', run_stderr = []\<rparr>
          else \<lparr>run_err = Some (ExitError 128), run_stdout = [], run_stderr = ''fatal''\<rparr>)
      id \<lparr>Path = ''/repo''\<rparr> ''refs/notes/devtools/reviews''))
   \<and> GetAllNotes (\<lambda>dir args stdin.
          if hd args = ''notes'' then \<lparr>run_err = None, run_stdout = ''n1 o1\<newline>'', run_stderr = []\<rparr>
          else \<lparr>run_err = Some (ExitError 128), run_stdout = [], run_stderr = ''fatal''\<rparr>)
      (2 ^ 48) \<lparr>Path = ''/repo''\<rparr> ''refs/notes/devtools/reviews''
     = (Inl (Errorf ''Failure performing a batch file check: %v'' [ArgErr (ExitError 128)]),
        [([''notes'', ''--ref'', ''refs/notes/devtools/reviews'', ''list''], []),
         ([''cat-file'', ''--batch-check=%(objectname) %(objecttype)''], ''o1\<newline>'')])
   \<and> GetAllNotes (\<lambda>dir args stdin.
          if hd args = ''notes'' then \<lparr>run_err = None, run_stdout = ''n1 o1\<newline>'', run_stderr = []\<rparr>
          else if stdin = ''o1\<newline>'' then \<lparr>run_err = None, run_stdout = ''o1 commit\<newline>'', run_stderr = []\<rparr>
          else \<lparr>run_err = Some (ExitError 128), run_stdout = [], run_stderr = ''fatal''\<rparr>)
      (2 ^ 48) \<lparr>Path = ''/repo''\<rparr> ''refs/notes/devtools/reviews''
     = (Inl (Errorf ''Failure performing a batch file read: %v'' [ArgErr (ExitError 128)]),
        [([''notes'', ''--ref'', ''refs/notes/devtools/reviews'', ''list''], []),
         ([''cat-file'', ''--batch-check=%(objectname) %(objecttype)''], ''o1\<newline>''),
         ([''cat-file'', ''--batch=%(objectname)\<newline>%(objectsize)''], ''n1\<newline>'')])"
proof -
  let ?repo = "\<lparr>Path = ''/repo''\<rparr>"
  let ?fail = "\<lambda>dir args stdin. \<lparr>run_err = Some (ExitError 128), run_stdout = [], run_stderr = ''fatal: bad ref''\<rparr> :: cmd_result"
  let ?query_fails = "\<lambda>dir args stdin.
          if hd args = ''notes'' then \<lparr>run_err = None, run_stdout = ''n1 o1\<newline>n2 o2'', run_stderr = []\<rparr>
          else if args = [''cat-file'', ''-t'', ''o2''] then \<lparr>run_err = None, run_stdout = ''commit'', run_stderr = []\<rparr>
          else \<lparr>run_err = Some (ExitError 128), run_stdout = [], run_stderr = ''fatal''\<rparr> :: cmd_result"
  let ?check_fails = "\<lambda>dir args stdin.
          if hd args = ''notes'' then \<lparr>run_err = None, run_stdout = ''n1 o1\<newline>'', run_stderr = []\<rparr>
          else \<lparr>run_err = Some (ExitError 128), run_stdout = [], run_stderr = ''fatal''\<rparr> :: cmd_result"
  let ?read_fails = "\<lambda>dir args stdin.
          if hd args = ''notes'' then \<lparr>run_err = None, run_stdout = ''n1 o1\<newline>'', run_stderr = []\<rparr>
          else if stdin = ''o1\<newline>'' then \<lparr>run_err = None, run_stdout = ''o1 commit\<newline>'', run_stderr = []\<rparr>
          else \<lparr>run_err = Some (ExitError 128), run_stdout = [], run_stderr = ''fatal''\<rparr> :: cmd_result"
  note scan = GetAllNotes_scan_one_line and check = splitBatchCheckOutput_one_commit
  have "GetNotes ?fail id ?repo ''refs/notes/devtools/discuss'' ''abc''
      = ([], [([''notes'', ''--ref'', ''refs/notes/devtools/discuss'', ''show'', ''abc''], [])])"
    using store_failure_results [where git = ?fail and ts = id and repo = ?repo
        and notesRef = "''refs/notes/devtools/discuss''" and revision = "''abc''" and e = "ExitError 128"]
    by simp
  moreover have "ListNotedRevisions ?fail id ?repo ''refs/notes/devtools/reviews''
        = ([], [([''notes'', ''--ref'', ''refs/notes/devtools/reviews'', ''list''], [])])
      \<and> GetAllNotes ?fail (2 ^ 48) ?repo ''refs/notes/devtools/reviews''
        = (Inl (ExitError 128), [([''notes'', ''--ref'', ''refs/notes/devtools/reviews'', ''list''], [])])"
    using store_failure_results [where git = ?fail and ts = id and repo = ?repo
        and notesRef = "''refs/notes/devtools/reviews''" and revision = "''abc''" and e = "ExitError 128"
        and maxAlloc = "2 ^ 48"]
    by simp
  moreover have "ListNotedRevisions ?query_fails id ?repo ''refs/notes/devtools/reviews''
        = ([''o2''],
           [([''notes'', ''--ref'', ''refs/notes/devtools/reviews'', ''list''], []),
            ([''cat-file'', ''-t'', ''o1''], []), ([''cat-file'', ''-t'', ''o2''], [])])"
    using store_failure_results [where git = ?query_fails and ts = id and repo = ?repo
        and notesRef = "''refs/notes/devtools/reviews''" and revision = "''abc''" and e = "ExitError 128"
        and maxAlloc = "2 ^ 48"]
    by (simp add: listedObjects_def isCommitObject_def runGitCommand_def runGitCommandRaw_def
        runGitCommandWithIO_def Let_def numeral_2_eq_2)
  moreover have "''o1'' \<notin> set (fst (ListNotedRevisions ?query_fails id ?repo ''refs/notes/devtools/reviews''))"
    using store_failure_results [where git = ?query_fails and ts = id and repo = ?repo
        and notesRef = "''refs/notes/devtools/reviews''" and revision = "''abc''" and e = "ExitError 128"
        and maxAlloc = "2 ^ 48"]
    by simp
  moreover have "GetAllNotes ?check_fails (2 ^ 48) ?repo ''refs/notes/devtools/reviews''
      = (Inl (Errorf ''Failure performing a batch file check: %v'' [ArgErr (ExitError 128)]),
         [([''notes'', ''--ref'', ''refs/notes/devtools/reviews'', ''list''], []),
          ([''cat-file'', ''--batch-check=%(objectname) %(objecttype)''], ''o1\<newline>'')])"
    using store_failure_results [where git = ?check_fails and ts = id and repo = ?repo
        and notesRef = "''refs/notes/devtools/reviews''" and revision = "''abc''" and e = "ExitError 128"
        and maxAlloc = "2 ^ 48"]
    by (simp add: scan stringsReader_def)
  moreover have "GetAllNotes ?read_fails (2 ^ 48) ?repo ''refs/notes/devtools/reviews''
      = (Inl (Errorf ''Failure performing a batch file read: %v'' [ArgErr (ExitError 128)]),
         [([''notes'', ''--ref'', ''refs/notes/devtools/reviews'', ''list''], []),
          ([''cat-file'', ''--batch-check=%(objectname) %(objecttype)''], ''o1\<newline>''),
          ([''cat-file'', ''--batch=%(objectname)\<newline>%(objectsize)''], ''n1\<newline>'')])"
    using store_failure_results [where git = ?read_fails and ts = id and repo = ?repo
        and notesRef = "''refs/notes/devtools/reviews''" and revision = "''abc''" and e = "ExitError 128"
        and maxAlloc = "2 ^ 48"]
    by (simp add: scan check stringsReader_def)
  ultimately show ?thesis by blast
qed

text \<open>
  C8, as the claim states it, fails: with a store whose every command fails, reading one
  revision's records and listing the annotated revisions return the empty sequence, the
  result that listing also gives for a store without notes, and the caller sees no error.
  With a store where only the type query of one object fails, listing returns the other
  object.
\<close>

theorem store_failure_counterexample:
  "GetNotes (\<lambda>dir args stdin. \<lparr>run_err = Some (ExitError 128), run_stdout = [], run_stderr = ''fatal: bad ref''\<rparr>)
      id \<lparr>Path = ''/repo''\<rparr> ''refs/notes/devtools/discuss'' ''abc''
     = ([], [([''notes'', ''--ref'', ''refs/notes/devtools/discuss'', ''show'', ''abc''], [])])
   \<and> ListNotedRevisions (\<lambda>dir args stdin. \<lparr>run_err = Some (ExitError 128), run_stdout = [], run_stderr = ''fatal: bad ref''\<rparr>)
      id \<lparr>Path = ''/repo''\<rparr> ''refs/notes/devtools/reviews''
     = ([], [([''notes'', ''--ref'', ''refs/notes/devtools/reviews'', ''list''], [])])
   \<and> ListNotedRevisions (\<lambda>dir args stdin. \<lparr>run_err = None, run_stdout = [], run_stderr = []\<rparr>)
      id \<lparr>Path = ''/repo''\<rparr> ''refs/notes/devtools/reviews''
     = ([], [([''notes'', ''--ref'', ''refs/notes/devtools/reviews'', ''list''], [])])
   \<and> ListNotedRevisions (\<lambda>dir args stdin.
          if hd args = ''notes'' then \<lparr>run_err = None, run_stdout = ''n1 o1\<newline>n2 o2'', run_stderr = []\<rparr>
          else if args = [''cat-file'', ''-t'', ''o2''] then \<lparr>run_err = None, run_stdout = ''commit'', run_stderr = []\<rparr>
          else \<lparr>run_err = Some (ExitError 128), run_stdout = [], run_stderr = ''fatal''\<rparr>)
      id \<lparr>Path = ''/repo''\<rparr> ''refs/notes/devtools/reviews''
     = ([''o2''],
        [([''notes'', ''--ref'', ''refs/notes/devtools/reviews'', ''list''], []),
         ([''cat-file'', ''-t'', ''o1''], []), ([''cat-file'', ''-t'', ''o2''], [])])"
  by (simp add: GetNotes_def ListNotedRevisions_def ListNotedRevisions_pair_def
      runGitCommand_logged_def runGitCommand_def runGitCommandRaw_def
      runGitCommandWithIO_def Let_def numeral_2_eq_2)

text \<open>
  C9. When the timestamp is a base-10 integer of 64 bits (an optional sign and decimal
  digits, with a value from \<open>-2^63\<close> to \<open>2^63 - 1\<close>), \<open>reformatTimestamp\<close> returns the
  rendering of that value as seconds after the epoch; for every other text it returns the
  text unchanged.
\<close>

theorem reformatTimestamp_cases:
  "(\<forall>n. base10_int64 timestamp n \<longrightarrow> reformatTimestamp unixDate timestamp = unixDate n)
   \<and> ((\<forall>n. \<not> base10_int64 timestamp n) \<longrightarrow> reformatTimestamp unixDate timestamp = timestamp)"
proof (cases "ParseInt timestamp 64")
  case (Inl err)
  then have "\<forall>n. \<not> base10_int64 timestamp n"
    using ParseInt_base10_int64 [of timestamp] by simp
  with Inl show ?thesis
    by (simp add: reformatTimestamp_def)
next
  case (Inr parsedTimestamp)
  then have "base10_int64 timestamp n \<longleftrightarrow> n = parsedTimestamp" for n
    using ParseInt_base10_int64 [of timestamp n] by auto
  with Inr show ?thesis
    by (simp add: reformatTimestamp_def)
qed

theorem reformatTimestamp_cases_witness:
  "reformatTimestamp (\<lambda>n. if n = 1440000000 then ''Wed Aug 19 16:00:00 UTC 2015'' else []) ''1440000000''
     = ''Wed Aug 19 16:00:00 UTC 2015''
   \<and> reformatTimestamp (\<lambda>n. if n = 1440000000 then ''Wed Aug 19 16:00:00 UTC 2015'' else []) ''yesterday''
     = ''yesterday''
   \<and> reformatTimestamp (\<lambda>n. if n = 1440000000 then ''Wed Aug 19 16:00:00 UTC 2015'' else []) ''9223372036854775808''
     = ''9223372036854775808''"
proof -
  have 1: "base10_int64 ''1440000000'' 1440000000"
    by (simp add: base10_int64_def isDigit_def digitValue_def)
  have 2: "\<forall>n. \<not> base10_int64 ''yesterday'' n"
    by (simp add: base10_int64_def isDigit_def)
  have 3: "\<forall>n. \<not> base10_int64 ''9223372036854775808'' n"
    by (simp add: base10_int64_def isDigit_def digitValue_def)
  from reformatTimestamp_cases [of "''1440000000''" "\<lambda>n. if n = 1440000000 then ''Wed Aug 19 16:00:00 UTC 2015'' else []"] 1
  have "reformatTimestamp (\<lambda>n. if n = 1440000000 then ''Wed Aug 19 16:00:00 UTC 2015'' else []) ''1440000000''
          = ''Wed Aug 19 16:00:00 UTC 2015''"
    by auto
  moreover
  from reformatTimestamp_cases [of "''yesterday''" "\<lambda>n. if n = 1440000000 then ''Wed Aug 19 16:00:00 UTC 2015'' else []"] 2
  have "reformatTimestamp (\<lambda>n. if n = 1440000000 then ''Wed Aug 19 16:00:00 UTC 2015'' else []) ''yesterday''
          = ''yesterday''"
    by blast
  moreover
  from reformatTimestamp_cases [of "''9223372036854775808''" "\<lambda>n. if n = 1440000000 then ''Wed Aug 19 16:00:00 UTC 2015'' else []"] 3
  have "reformatTimestamp (\<lambda>n. if n = 1440000000 then ''Wed Aug 19 16:00:00 UTC 2015'' else []) ''9223372036854775808''
          = ''9223372036854775808''"
    by blast
  ultimately show ?thesis by blast
qed

text \<open>
  C10. IsAncestor answers (true, no error) exactly when the ancestry command succeeds,
  (false, no error) exactly when the command ends with an exit error, and reports an error,
  with the answer false, exactly for the failures that are not an exit error; the reported
  error wraps the command's error.
\<close>

theorem IsAncestor_outcomes:
  assumes "run_err (git (Path repo) [''merge-base'', ''--is-ancestor'', a, d] []) = e"
  shows "(IsAncestor git ts repo a d = (True, None) \<longleftrightarrow> e = None)
       \<and> (IsAncestor git ts repo a d = (False, None) \<longleftrightarrow> (\<exists>c. e = Some (ExitError c)))
       \<and> (snd (IsAncestor git ts repo a d) \<noteq> None \<longleftrightarrow> (\<exists>x. e = Some x \<and> (\<forall>c. x \<noteq> ExitError c)))
       \<and> (\<forall>x. e = Some x \<and> (\<forall>c. x \<noteq> ExitError c) \<longrightarrow>
            IsAncestor git ts repo a d =
              (False, Some (Errorf ''Error while trying to determine commit ancestry: %v'' [ArgErr x])))"
  using assms unfolding IsAncestor_def runGitCommandRaw_def runGitCommandWithIO_def
  by (auto simp: Let_def split: option.splits error.splits)

theorem IsAncestor_outcomes_witness:
  "IsAncestor (\<lambda>dir args stdin. \<lparr>run_err = Some (ExecFailure ''exec: git: not found''), run_stdout = [], run_stderr = []\<rparr>)
      id \<lparr>Path = ''/repo''\<rparr> ''abc'' ''refs/heads/master''
   = (False, Some (Errorf ''Error while trying to determine commit ancestry: %v''
        [ArgErr (ExecFailure ''exec: git: not found'')]))
   \<and> IsAncestor (\<lambda>dir args stdin. \<lparr>run_err = Some (ExitError 1), run_stdout = [], run_stderr = []\<rparr>)
      id \<lparr>Path = ''/repo''\<rparr> ''abc'' ''refs/heads/master'' = (False, None)
   \<and> IsAncestor (\<lambda>dir args stdin. \<lparr>run_err = None, run_stdout = [], run_stderr = []\<rparr>)
      id \<lparr>Path = ''/repo''\<rparr> ''abc'' ''refs/heads/master'' = (True, None)"
  using IsAncestor_outcomes [where git = "\<lambda>dir args stdin. \<lparr>run_err = Some (ExecFailure ''exec: git: not found''), run_stdout = [], run_stderr = []\<rparr>"
          and ts = id and repo = "\<lparr>Path = ''/repo''\<rparr>" and a = "''abc''" and d = "''refs/heads/master''", OF refl]
        IsAncestor_outcomes [where git = "\<lambda>dir args stdin. \<lparr>run_err = Some (ExitError 1), run_stdout = [], run_stderr = []\<rparr>"
          and ts = id and repo = "\<lparr>Path = ''/repo''\<rparr>" and a = "''abc''" and d = "''refs/heads/master''", OF refl]
        IsAncestor_outcomes [where git = "\<lambda>dir args stdin. \<lparr>run_err = None, run_stdout = [], run_stderr = []\<rparr>"
          and ts = id and repo = "\<lparr>Path = ''/repo''\<rparr>" and a = "''abc''" and d = "''refs/heads/master''", OF refl]
  by simp

end
